theory Spec2Isabelle
  imports Complex_Main "HOL-Library.Sublist" "HOL-Library.Product_Lexorder"
begin

section \<open>Python strings\<close>

text \<open>
  A Python \<open>str\<close> is a sequence of Unicode code points; it is modelled as a list of
  code points, so that \<open>len\<close> is \<open>length\<close> and the Cyrillic literals of the program can be
  written down. \<open>str\<close> turns an ASCII literal into such a list.
\<close>

type_synonym pystr = "nat list"

definition str :: "string \<Rightarrow> pystr" where
  "str s = map of_char s"

text \<open>
  \<open>isspace\<close> is the whitespace test shared by \<open>str.strip()\<close> and by \<open>\s\<close> of the \<open>re\<close>
  module on \<open>str\<close> patterns: the code points U+0009..U+000D, U+001C..U+0020, U+0085,
  U+00A0, U+1680, U+2000..U+200A, U+2028, U+2029, U+202F, U+205F and U+3000.
\<close>

definition isspace :: "nat \<Rightarrow> bool" where
  "isspace c \<longleftrightarrow>
     (9 \<le> c \<and> c \<le> 13) \<or> (28 \<le> c \<and> c \<le> 32) \<or> c = 133 \<or> c = 160 \<or> c = 5760 \<or>
     (8192 \<le> c \<and> c \<le> 8202) \<or> c = 8232 \<or> c = 8233 \<or> c = 8239 \<or> c = 8287 \<or> c = 12288"

text \<open>\<open>text.strip()\<close>: leading and trailing whitespace removed.\<close>

definition strip :: "pystr \<Rightarrow> pystr" where
  "strip s = rev (dropWhile isspace (rev (dropWhile isspace s)))"

text \<open>
  \<open>re.sub(r'\s+', ' ', t)\<close>: every maximal run of whitespace is replaced by one space
  (U+0020), scanning from the left.
\<close>

function sub_ws :: "pystr \<Rightarrow> pystr" where
  "sub_ws [] = []"
| "sub_ws (c # cs) =
     (if isspace c then 32 # sub_ws (dropWhile isspace cs) else c # sub_ws cs)"
  by pat_completeness auto
termination
  by (relation "measure length") (auto simp: less_Suc_eq_le length_dropWhile_le)

text \<open>
  The inner function of \<open>compare_texts\<close> (app.py, line 62):
  \<^verbatim>\<open>def normalize(text): return re.sub(r'\s+', ' ', text.strip().lower())\<close>
  \<open>str.lower()\<close> belongs to the Python library: it lowercases by the Unicode tables, one
  code point can become two, and the capital sigma is lowercased by its context. It is
  the parameter \<open>lower\<close> of every definition that calls it.
\<close>

definition normalize_text :: "(pystr \<Rightarrow> pystr) \<Rightarrow> pystr \<Rightarrow> pystr" where
  "normalize_text lower text = sub_ws (lower (strip text))"

text \<open>
  What the proofs use of \<open>str.lower()\<close>. A string without whitespace at its ends has a
  lowercase without whitespace at its ends (a whitespace character is its own
  lowercase, and no other character has whitespace in its lowercase). A string made of
  characters of a lowercased string and of spaces is its own lowercase (no character
  of a lowercased string has another lowercase form, in any context).
\<close>

definition trimmed :: "pystr \<Rightarrow> bool" where
  "trimmed s \<longleftrightarrow> s = [] \<or> (\<not> isspace (hd s) \<and> \<not> isspace (last s))"

definition lower_contract :: "(pystr \<Rightarrow> pystr) \<Rightarrow> bool" where
  "lower_contract lower \<longleftrightarrow>
     (\<forall>s. trimmed s \<longrightarrow> trimmed (lower s)) \<and>
     (\<forall>s t. set t \<subseteq> insert 32 (set (lower s)) \<longrightarrow> lower t = t)"

section \<open>The sequence matcher\<close>

text \<open>
  \<open>compare_texts\<close> calls \<open>difflib.SequenceMatcher(None, a, b).ratio()\<close> of the Python
  standard library (app.py, lines 65-66). The definitions of this section follow
  \<open>Lib/difflib.py\<close>: \<open>__chain_b\<close>, \<open>find_longest_match\<close>, \<open>get_matching_blocks\<close> and
  \<open>ratio\<close>, with \<open>isjunk = None\<close> and \<open>autojunk = True\<close> as the call leaves them.
  A match is the triple \<open>(i, j, k)\<close>: \<open>a[i:i+k] == b[j:j+k]\<close>.
\<close>

type_synonym match = "nat \<times> nat \<times> nat"

text \<open>
  \<open>__chain_b\<close>: \<open>b2j\<close> maps each element of \<open>b\<close> to the increasing list of its positions.
  No element is junk (\<open>isjunk\<close> is \<open>None\<close>); when \<open>b\<close> has 200 elements or more, the
  elements that occur more than \<open>len(b) // 100 + 1\<close> times are "popular" and are deleted
  from \<open>b2j\<close>. \<open>b2j_get b elt\<close> is \<open>b2j.get(elt, [])\<close>.
\<close>

definition indices_of :: "pystr \<Rightarrow> nat \<Rightarrow> nat list" where
  "indices_of b elt = filter (\<lambda>j. b ! j = elt) [0..<length b]"

definition bpopular :: "pystr \<Rightarrow> nat \<Rightarrow> bool" where
  "bpopular b elt \<longleftrightarrow> 200 \<le> length b \<and> length b div 100 + 1 < length (indices_of b elt)"

definition isbjunk :: "pystr \<Rightarrow> nat \<Rightarrow> bool" where
  "isbjunk b elt \<longleftrightarrow> False"

definition b2j_get :: "pystr \<Rightarrow> nat \<Rightarrow> nat list" where
  "b2j_get b elt = (if isbjunk b elt \<or> bpopular b elt then [] else indices_of b elt)"

text \<open>
  The two nested loops of \<open>find_longest_match\<close>. \<open>j2len_get j2len j\<close> is
  \<open>j2len.get(j-1, 0)\<close>; for \<open>j = 0\<close> the key \<open>-1\<close> is never present. \<open>scan_row\<close> is the
  inner loop over \<open>b2j.get(a[i], [])\<close> with its \<open>continue\<close> and \<open>break\<close>, \<open>scan_rows\<close>
  the outer loop over \<open>range(alo, ahi)\<close>. The new best start \<open>i-k+1\<close> is written
  \<open>i + 1 - k\<close>, since \<open>k \<le> i + 1\<close> and subtraction on \<open>nat\<close> truncates.
\<close>

definition j2len_get :: "(nat \<rightharpoonup> nat) \<Rightarrow> nat \<Rightarrow> nat" where
  "j2len_get j2len j = (if j = 0 then 0 else case j2len (j - 1) of None \<Rightarrow> 0 | Some k \<Rightarrow> k)"

fun scan_row :: "(nat \<rightharpoonup> nat) \<Rightarrow> nat \<Rightarrow> nat \<Rightarrow> nat \<Rightarrow> nat list \<Rightarrow>
    (nat \<rightharpoonup> nat) \<times> match \<Rightarrow> (nat \<rightharpoonup> nat) \<times> match" where
  "scan_row j2len i blo bhi [] acc = acc"
| "scan_row j2len i blo bhi (j # js) (newj2len, (besti, bestj, bestsize)) =
     (if j < blo then scan_row j2len i blo bhi js (newj2len, (besti, bestj, bestsize))
      else if bhi \<le> j then (newj2len, (besti, bestj, bestsize))
      else let k = j2len_get j2len j + 1 in
        scan_row j2len i blo bhi js
          (newj2len(j \<mapsto> k),
           if bestsize < k then (i + 1 - k, j + 1 - k, k) else (besti, bestj, bestsize)))"

fun scan_rows :: "pystr \<Rightarrow> pystr \<Rightarrow> nat \<Rightarrow> nat \<Rightarrow> nat list \<Rightarrow>
    (nat \<rightharpoonup> nat) \<times> match \<Rightarrow> (nat \<rightharpoonup> nat) \<times> match" where
  "scan_rows a b blo bhi [] acc = acc"
| "scan_rows a b blo bhi (i # is) (j2len, best) =
     scan_rows a b blo bhi is (scan_row j2len i blo bhi (b2j_get b (a ! i)) (Map.empty, best))"

text \<open>
  The four \<open>while\<close> loops that extend the best match: first over non-junk elements to
  the left and to the right, then over junk elements (\<open>junk\<close> says which of the two).
\<close>

function extend_left :: "bool \<Rightarrow> pystr \<Rightarrow> pystr \<Rightarrow> nat \<Rightarrow> nat \<Rightarrow> match \<Rightarrow> match" where
  "extend_left junk a b alo blo (besti, bestj, bestsize) =
     (if alo < besti \<and> blo < bestj \<and> isbjunk b (b ! (bestj - 1)) = junk \<and>
         a ! (besti - 1) = b ! (bestj - 1)
      then extend_left junk a b alo blo (besti - 1, bestj - 1, bestsize + 1)
      else (besti, bestj, bestsize))"
  by pat_completeness auto
termination
  by (relation "measure (\<lambda>(junk, a, b, alo, blo, besti, bestj, bestsize). besti)") auto

function extend_right :: "bool \<Rightarrow> pystr \<Rightarrow> pystr \<Rightarrow> nat \<Rightarrow> nat \<Rightarrow> match \<Rightarrow> match" where
  "extend_right junk a b ahi bhi (besti, bestj, bestsize) =
     (if besti + bestsize < ahi \<and> bestj + bestsize < bhi \<and>
         isbjunk b (b ! (bestj + bestsize)) = junk \<and>
         a ! (besti + bestsize) = b ! (bestj + bestsize)
      then extend_right junk a b ahi bhi (besti, bestj, bestsize + 1)
      else (besti, bestj, bestsize))"
  by pat_completeness auto
termination
  by (relation "measure (\<lambda>(junk, a, b, ahi, bhi, besti, bestj, bestsize). ahi - (besti + bestsize))") auto

definition find_longest_match :: "pystr \<Rightarrow> pystr \<Rightarrow> nat \<Rightarrow> nat \<Rightarrow> nat \<Rightarrow> nat \<Rightarrow> match" where
  "find_longest_match a b alo ahi blo bhi =
     (let best = snd (scan_rows a b blo bhi [alo..<ahi] (Map.empty, (alo, blo, 0)));
          best = extend_left False a b alo blo best;
          best = extend_right False a b ahi bhi best;
          best = extend_left True a b alo blo best;
          best = extend_right True a b ahi bhi best
      in best)"


text \<open>
  The match found lies inside \<open>a[alo:ahi]\<close> and \<open>b[blo:bhi]\<close>; the recursion of
  \<open>get_matching_blocks\<close> terminates because of it.
\<close>

definition best_ok :: "nat \<Rightarrow> nat \<Rightarrow> nat \<Rightarrow> nat \<Rightarrow> match \<Rightarrow> bool" where
  "best_ok alo ahi blo bhi m \<longleftrightarrow>
     (case m of (i, j, k) \<Rightarrow>
        alo \<le> i \<and> blo \<le> j \<and>
        ((i + k \<le> ahi \<and> j + k \<le> bhi) \<or> (k = 0 \<and> i = alo \<and> j = blo)))"

definition j2len_ok :: "nat \<Rightarrow> nat \<Rightarrow> nat \<Rightarrow> (nat \<rightharpoonup> nat) \<Rightarrow> bool" where
  "j2len_ok bound blo bhi j2len \<longleftrightarrow>
     (\<forall>j v. j2len j = Some v \<longrightarrow> v \<le> bound \<and> blo \<le> j \<and> j < bhi \<and> v \<le> j + 1 - blo)"

lemma j2len_get_le:
  assumes "j2len_ok bound blo bhi j2len" and "blo \<le> j"
  shows "j2len_get j2len j \<le> bound \<and> j2len_get j2len j \<le> j - blo"
proof (cases "j = 0")
  case True
  then show ?thesis by (simp add: j2len_get_def)
next
  case False
  show ?thesis
  proof (cases "j2len (j - 1)")
    case None
    then show ?thesis using False by (simp add: j2len_get_def)
  next
    case (Some v)
    then have "v \<le> bound \<and> blo \<le> j - 1 \<and> v \<le> j - 1 + 1 - blo"
      using assms(1) by (auto simp: j2len_ok_def)
    then show ?thesis using Some False by (simp add: j2len_get_def)
  qed
qed

lemma scan_row_ok:
  assumes "alo \<le> i" "i < ahi" and "j2len_ok (i - alo) blo bhi j2len"
  shows "j2len_ok (i + 1 - alo) blo bhi new \<Longrightarrow> best_ok alo ahi blo bhi best \<Longrightarrow>
    scan_row j2len i blo bhi js (new, best) = (new', best') \<Longrightarrow>
    j2len_ok (i + 1 - alo) blo bhi new' \<and> best_ok alo ahi blo bhi best'"
proof (induction js arbitrary: new best)
  case Nil
  then show ?case by simp
next
  case (Cons j js)
  obtain bi bj bs where best: "best = (bi, bj, bs)" by (cases best) auto
  define k where "k = j2len_get j2len j + 1"
  show ?case
  proof (cases "j < blo")
    case True
    then have "scan_row j2len i blo bhi js (new, best) = (new', best')"
      using Cons.prems(3) best by simp
    with Cons.IH [of new best] Cons.prems(1,2) show ?thesis by blast
  next
    case False
    show ?thesis
    proof (cases "bhi \<le> j")
      case True
      then show ?thesis using Cons.prems False best by simp
    next
      case inrange: False
      have g: "j2len_get j2len j \<le> i - alo \<and> j2len_get j2len j \<le> j - blo"
        using j2len_get_le [OF assms(3), of j] False by simp
      have k: "k \<le> i + 1 - alo" "k \<le> j + 1 - blo"
        using g assms(1) False unfolding k_def by linarith+
      let ?new = "new(j \<mapsto> k)"
      let ?best = "if bs < k then (i + 1 - k, j + 1 - k, k) else (bi, bj, bs)"
      have step: "scan_row j2len i blo bhi js (?new, ?best) = (new', best')"
        using Cons.prems(3) False inrange best
        by (cases "bs < k") (simp_all add: k_def Let_def)
      have n: "j2len_ok (i + 1 - alo) blo bhi ?new"
        using Cons.prems(1) k False inrange by (auto simp: j2len_ok_def)
      have "alo \<le> i + 1 - k" "i + 1 - k + k \<le> ahi" "blo \<le> j + 1 - k" "j + 1 - k + k \<le> bhi"
        using k assms(1,2) False inrange by linarith+
      then have b: "best_ok alo ahi blo bhi ?best"
        using Cons.prems(2) best by (simp add: best_ok_def)
      show ?thesis by (rule Cons.IH [OF n b step])
    qed
  qed
qed

lemma scan_rows_ok:
  "alo \<le> m \<Longrightarrow> j2len_ok (m - alo) blo bhi j2len \<Longrightarrow> best_ok alo ahi blo bhi best \<Longrightarrow>
   best_ok alo ahi blo bhi (snd (scan_rows a b blo bhi [m..<ahi] (j2len, best)))"
proof (induction "ahi - m" arbitrary: m j2len best)
  case 0
  then show ?case by simp
next
  case (Suc n)
  then have lt: "m < ahi" by simp
  obtain new' best' where r:
    "scan_row j2len m blo bhi (b2j_get b (a ! m)) (Map.empty, best) = (new', best')"
    by (cases "scan_row j2len m blo bhi (b2j_get b (a ! m)) (Map.empty, best)") auto
  have e: "j2len_ok (m + 1 - alo) blo bhi Map.empty" by (simp add: j2len_ok_def)
  have ok: "j2len_ok (m + 1 - alo) blo bhi new' \<and> best_ok alo ahi blo bhi best'"
    by (rule scan_row_ok [OF Suc.prems(1) lt Suc.prems(2) e Suc.prems(3) r])
  have n: "n = ahi - Suc m" using Suc.hyps(2) by simp
  have m: "alo \<le> Suc m" using Suc.prems(1) by simp
  have j: "j2len_ok (Suc m - alo) blo bhi new'" using ok by simp
  have "best_ok alo ahi blo bhi (snd (scan_rows a b blo bhi [Suc m..<ahi] (new', best')))"
    using ok by (intro Suc.hyps(1) [OF n m j]) simp
  then show ?case using lt r by (simp add: upt_conv_Cons)
qed

declare extend_left.simps [simp del] extend_right.simps [simp del]

lemma extend_left_ok:
  "best_ok alo ahi blo bhi m \<Longrightarrow> best_ok alo ahi blo bhi (extend_left junk a b alo blo m)"
proof (induction junk a b alo blo m rule: extend_left.induct)
  case (1 junk a b alo blo besti bestj bestsize)
  show ?case
  proof (cases "alo < besti \<and> blo < bestj \<and> isbjunk b (b ! (bestj - 1)) = junk \<and>
         a ! (besti - 1) = b ! (bestj - 1)")
    case True
    have "best_ok alo ahi blo bhi (besti - 1, bestj - 1, bestsize + 1)"
      using "1.prems" True by (auto simp: best_ok_def)
    then show ?thesis using "1.IH" True by (subst extend_left.simps) simp
  next
    case False
    then show ?thesis using "1.prems" by (subst extend_left.simps) auto
  qed
qed

lemma extend_right_ok:
  "best_ok alo ahi blo bhi m \<Longrightarrow> best_ok alo ahi blo bhi (extend_right junk a b ahi bhi m)"
proof (induction junk a b ahi bhi m rule: extend_right.induct)
  case (1 junk a b ahi bhi besti bestj bestsize)
  show ?case
  proof (cases "besti + bestsize < ahi \<and> bestj + bestsize < bhi \<and>
         isbjunk b (b ! (bestj + bestsize)) = junk \<and>
         a ! (besti + bestsize) = b ! (bestj + bestsize)")
    case True
    have "best_ok alo ahi blo bhi (besti, bestj, bestsize + 1)"
      using "1.prems" True by (auto simp: best_ok_def)
    then show ?thesis using "1.IH" True by (subst extend_right.simps) simp
  next
    case False
    then show ?thesis using "1.prems" by (subst extend_right.simps) auto
  qed
qed

lemma find_longest_match_ok:
  "best_ok alo ahi blo bhi (find_longest_match a b alo ahi blo bhi)"
proof -
  have "best_ok alo ahi blo bhi
      (snd (scan_rows a b blo bhi [alo..<ahi] (Map.empty, (alo, blo, 0))))"
    by (rule scan_rows_ok) (simp_all add: best_ok_def j2len_ok_def)
  then show ?thesis
    unfolding find_longest_match_def Let_def
    by (intro extend_right_ok extend_left_ok)
qed

lemma find_longest_match_bounds:
  assumes "find_longest_match a b alo ahi blo bhi = (i, j, k)" "k \<noteq> 0"
  shows "alo \<le> i \<and> i + k \<le> ahi \<and> blo \<le> j \<and> j + k \<le> bhi"
  using find_longest_match_ok [of alo ahi blo bhi a b] assms by (simp add: best_ok_def)

text \<open>
  \<open>get_matching_blocks\<close> keeps a stack \<open>queue\<close> of ranges, starting with
  \<open>(0, la, 0, lb)\<close>: it pops a range, appends the longest match of the range when its size
  is not 0, and pushes the range to the left of the match, then the range to its right.
  \<open>matching_blocks_in\<close> is that loop for one range of the stack: the match, then the
  blocks of the right range (pushed last, popped first), then those of the left range.
\<close>

function matching_blocks_in :: "pystr \<Rightarrow> pystr \<Rightarrow> nat \<Rightarrow> nat \<Rightarrow> nat \<Rightarrow> nat \<Rightarrow> match list" where
  "matching_blocks_in a b alo ahi blo bhi =
     (case find_longest_match a b alo ahi blo bhi of (i, j, k) \<Rightarrow>
        if k = 0 then []
        else (i, j, k) #
          (if i + k < ahi \<and> j + k < bhi then matching_blocks_in a b (i + k) ahi (j + k) bhi else []) @
          (if alo < i \<and> blo < j then matching_blocks_in a b alo i blo j else []))"
  by pat_completeness auto

termination
proof (relation "measure (\<lambda>(a, b, alo, ahi, blo, bhi). ahi - alo)", goal_cases)
  case 1
  show ?case by simp
next
  case (2 a b alo ahi blo bhi x y xa ya)
  then have "find_longest_match a b alo ahi blo bhi = (x, xa, ya)" by simp
  from find_longest_match_bounds [OF this] 2 have "alo \<le> x" "x + ya \<le> ahi" "0 < ya"
    by simp_all
  then show ?case by (simp, (linarith)?)
next
  case (3 a b alo ahi blo bhi x y xa ya)
  then have "find_longest_match a b alo ahi blo bhi = (x, xa, ya)" by simp
  from find_longest_match_bounds [OF this] 3 have "alo \<le> x" "x + ya \<le> ahi" "0 < ya"
    by simp_all
  then show ?case by (simp, (linarith)?)
qed

declare matching_blocks_in.simps [simp del]

text \<open>
  The end of \<open>get_matching_blocks\<close>: the blocks are sorted, adjacent blocks are merged
  (\<open>collapse_adjacent\<close>, started with \<open>i1 = j1 = k1 = 0\<close>), and the sentinel
  \<open>(la, lb, 0)\<close> is appended.
\<close>

fun collapse_adjacent :: "match \<Rightarrow> match list \<Rightarrow> match list" where
  "collapse_adjacent (i1, j1, k1) [] = (if k1 \<noteq> 0 then [(i1, j1, k1)] else [])"
| "collapse_adjacent (i1, j1, k1) ((i2, j2, k2) # rest) =
     (if i1 + k1 = i2 \<and> j1 + k1 = j2 then collapse_adjacent (i1, j1, k1 + k2) rest
      else (if k1 \<noteq> 0 then [(i1, j1, k1)] else []) @ collapse_adjacent (i2, j2, k2) rest)"

definition get_matching_blocks :: "pystr \<Rightarrow> pystr \<Rightarrow> match list" where
  "get_matching_blocks a b =
     collapse_adjacent (0, 0, 0) (sort (matching_blocks_in a b 0 (length a) 0 (length b)))
       @ [(length a, length b, 0)]"

text \<open>
  \<open>ratio\<close>: \<open>matches = sum(triple[-1] for triple in self.get_matching_blocks())\<close> and
  \<open>_calculate_ratio(matches, len(a) + len(b))\<close>, which is \<open>2.0 * matches / length\<close>, or
  \<open>1.0\<close> when \<open>length\<close> is 0.
\<close>

definition matches :: "pystr \<Rightarrow> pystr \<Rightarrow> nat" where
  "matches a b = sum_list (map (\<lambda>(i, j, k). k) (get_matching_blocks a b))"

text \<open>
  Python's \<open>float\<close> is the IEEE 754 binary64 format: a result of an operation is the
  exact result rounded to the nearest number with a significand of 53 bits, a tie
  going to the even significand. A float is modelled by the rational number it is.
  \<open>round_half_even\<close> rounds to the nearest integer, a tie going to the even one.
  \<open>fl_pos\<close> rounds a positive number: it is doubled or halved until it lies between
  \<open>2^52 = 4503599627370496\<close> and \<open>2^53 = 9007199254740992\<close>, where the floats are the
  integers, rounded there and scaled back. \<open>fl\<close> rounds any number. Overflow and
  subnormal numbers are not modelled: the numbers of the program are 0 or lie between
  \<open>2^-52\<close> and 100, the lengths of the texts being below \<open>2^52\<close>, so that a length and
  twice the number of matches are floats as they are.
\<close>

definition round_half_even :: "rat \<Rightarrow> int" where
  "round_half_even x =
     (let f = floor x; d = x - of_int f
      in if d < 1 / 2 then f else if 1 / 2 < d then f + 1 else if even f then f else f + 1)"

lemma floor_half_less: "2 \<le> (y::rat) \<Longrightarrow> nat \<lfloor>y / 2\<rfloor> < nat \<lfloor>y\<rfloor>"
proof -
  assume y: "2 \<le> y"
  have "y / 2 \<le> y - 1" using y by simp
  then have "\<lfloor>y / 2\<rfloor> \<le> \<lfloor>y - 1\<rfloor>" by (rule floor_mono)
  then have "\<lfloor>y / 2\<rfloor> < \<lfloor>y\<rfloor>" by simp
  moreover have "0 < \<lfloor>y\<rfloor>" using y by simp
  ultimately show ?thesis by simp
qed

function fl_pos :: "rat \<Rightarrow> rat" where
  "fl_pos x =
     (if x \<le> 0 then 0
      else if x < 4503599627370496 then fl_pos (2 * x) / 2
      else if 9007199254740992 \<le> x then fl_pos (x / 2) * 2
      else of_int (round_half_even x))"
  by pat_completeness auto

termination
proof (relation "measure (\<lambda>x. if x \<le> 0 then 0
    else if x < 4503599627370496 then 18014398509481984 + nat \<lfloor>9007199254740992 / x\<rfloor>
    else nat \<lfloor>x\<rfloor>)", goal_cases)
  case 1
  show ?case by simp
next
  case (2 x)
  then have x: "0 < x" "x < 4503599627370496" by simp_all
  show ?case
  proof (cases "2 * x < 4503599627370496")
    case True
    have "2 \<le> 9007199254740992 / x" using x by (simp add: le_divide_eq)
    from floor_half_less [OF this]
    have "nat \<lfloor>9007199254740992 / (2 * x)\<rfloor> < nat \<lfloor>9007199254740992 / x\<rfloor>"
      by (simp add: field_simps)
    then show ?thesis using x True by simp
  next
    case False
    have "2 * x < 9007199254740992" using x by simp
    then have "\<lfloor>2 * x\<rfloor> < 9007199254740992" by (simp add: floor_less_iff)
    then have n: "nat \<lfloor>2 * x\<rfloor> < 18014398509481984" by arith
    have "nat \<lfloor>2 * x\<rfloor> < 18014398509481984 + nat \<lfloor>9007199254740992 / x\<rfloor>"
      using n by linarith
    then show ?thesis using x False by simp
  qed
next
  case (3 x)
  then have x: "9007199254740992 \<le> x" by simp
  then have "2 \<le> x" by simp
  from floor_half_less [OF this] show ?case using x by simp
qed

declare fl_pos.simps [simp del]

definition fl :: "rat \<Rightarrow> rat" where
  "fl x = (if x < 0 then - fl_pos (- x) else fl_pos x)"

text \<open>\<open>2.0 * matches / length\<close>: the quotient of two floats, rounded.\<close>

definition calculate_ratio :: "nat \<Rightarrow> nat \<Rightarrow> rat" where
  "calculate_ratio m len = (if len \<noteq> 0 then fl (2 * of_nat m / of_nat len) else 1)"

definition ratio :: "pystr \<Rightarrow> pystr \<Rightarrow> rat" where
  "ratio a b = calculate_ratio (matches a b) (length a + length b)"

text \<open>
  \<open>round(x, 2)\<close> of a float \<open>x\<close>: the exact value of \<open>x\<close> is rounded to the nearest
  multiple of 0.01, a tie going to the even multiple, and the result is the float
  nearest to that decimal number.
\<close>

definition round2 :: "rat \<Rightarrow> rat" where
  "round2 x = fl (of_int (round_half_even (x * 100)) / 100)"

section \<open>Comparing two texts\<close>

text \<open>\<open>text.split('\n')\<close>: the pieces between the separators; never the empty list.\<close>

fun split_on :: "nat \<Rightarrow> pystr \<Rightarrow> pystr list" where
  "split_on sep [] = [[]]"
| "split_on sep (c # cs) =
     (if c = sep then [] # split_on sep cs
      else (case split_on sep cs of [] \<Rightarrow> [[c]] | piece # pieces \<Rightarrow> (c # piece) # pieces))"

text \<open>\<open>[line.strip() for line in text.split('\n') if line.strip()]\<close>\<close>

definition stripped_lines :: "pystr \<Rightarrow> pystr list" where
  "stripped_lines text = map strip (filter (\<lambda>line. strip line \<noteq> []) (split_on 10 text))"

text \<open>\<open>x in y\<close> on two strings: \<open>x\<close> occurs in \<open>y\<close> as a contiguous substring.\<close>

fun py_in :: "pystr \<Rightarrow> pystr \<Rightarrow> bool" where
  "py_in x [] = (x = [])"
| "py_in x (c # cs) = (prefix x (c # cs) \<or> py_in x cs)"

text \<open>\<open>y.startswith(x)\<close>\<close>

definition startswith :: "pystr \<Rightarrow> pystr \<Rightarrow> bool" where
  "startswith y x = prefix x y"

text \<open>
  The dictionary returned by \<open>compare_texts\<close> (app.py, lines 74-82).
\<close>

record comparison =
  similarity :: rat
  original_length :: nat
  lib_length :: nat
  missing_lines_count :: nat
  extra_lines_count :: nat
  example_missing :: "pystr list"
  example_extra :: "pystr list"

text \<open>
  \<open>missing\<close> and \<open>extra\<close> (app.py, lines 71-72):
  \<^verbatim>\<open>missing = [line for line in original_lines if normalize(line) not in normalize(lib_text)]\<close>
  \<^verbatim>\<open>extra = [line for line in lib_lines if normalize(line) not in normalize(original_text)]\<close>
\<close>

definition missing :: "(pystr \<Rightarrow> pystr) \<Rightarrow> pystr \<Rightarrow> pystr \<Rightarrow> pystr list" where
  "missing lower original_text lib_text =
     filter (\<lambda>line. \<not> py_in (normalize_text lower line) (normalize_text lower lib_text))
       (stripped_lines original_text)"

definition extra :: "(pystr \<Rightarrow> pystr) \<Rightarrow> pystr \<Rightarrow> pystr \<Rightarrow> pystr list" where
  "extra lower original_text lib_text =
     filter (\<lambda>line. \<not> py_in (normalize_text lower line) (normalize_text lower original_text))
       (stripped_lines lib_text)"

text \<open>
  \<open>compare_texts\<close> (app.py, lines 59-82). \<open>list(set(xs))\<close> lists the distinct elements of
  \<open>xs\<close> in the iteration order of a Python set, which depends on the hashes of the
  strings; the order is the parameter \<open>list_set\<close>, and \<open>set_listing\<close> says what every
  such order satisfies on a list \<open>xs\<close>. \<open>similarity = matcher.ratio() * 100\<close> is a
  product of floats, and \<open>round(similarity, 2)\<close> rounds it.
\<close>

definition set_listing :: "(pystr list \<Rightarrow> pystr list) \<Rightarrow> pystr list \<Rightarrow> bool" where
  "set_listing list_set xs \<longleftrightarrow> distinct (list_set xs) \<and> set (list_set xs) = set xs"

definition compare_texts ::
    "(pystr \<Rightarrow> pystr) \<Rightarrow> (pystr list \<Rightarrow> pystr list) \<Rightarrow> pystr \<Rightarrow> pystr \<Rightarrow> comparison" where
  "compare_texts lower list_set original_text lib_text =
     \<lparr> similarity =
         round2 (fl (ratio (normalize_text lower original_text) (normalize_text lower lib_text) * 100)),
       original_length = length original_text,
       lib_length = length lib_text,
       missing_lines_count = length (missing lower original_text lib_text),
       extra_lines_count = length (extra lower original_text lib_text),
       example_missing = take 3 (list_set (missing lower original_text lib_text)),
       example_extra = take 3 (list_set (extra lower original_text lib_text)) \<rparr>"

section \<open>The diagnostic classifier\<close>

text \<open>
  \<open>generate_ai_analysis\<close> (app.py, lines 84-122) builds a list of lines and joins it.
  The fixed Russian sentences are the constructors of \<open>analysis_line\<close>:
  \<open>HighSimilarity\<close> is the sentence "... high similarity (more than 80%) ...",
  \<open>ModerateSimilarity\<close> the sentence "... moderate similarity (50-80%) ...",
  \<open>LowSimilarity\<close> the sentence "... low similarity (less than 50%) ...";
  \<open>Example\<close> carries \<open>example[:150]\<close> and whether \<open>'...'\<close> follows it.
\<close>

datatype analysis_line =
    HighSimilarity | ModerateSimilarity | LowSimilarity
  | MissingCount nat | MissingHeading | ExtraCount nat | ExtraHeading
  | Example pystr bool
  | Conclusion | MainlyMissing | MainlyExtra | MissingAndExtra

definition similarity_verdict :: "rat \<Rightarrow> analysis_line" where
  "similarity_verdict s =
     (if s > 80 then HighSimilarity
      else if s > 50 then ModerateSimilarity
      else LowSimilarity)"

definition example_line :: "pystr \<Rightarrow> analysis_line" where
  "example_line example = Example (take 150 example) (150 < length example)"

definition generate_ai_analysis :: "comparison \<Rightarrow> analysis_line list" where
  "generate_ai_analysis comparison_data =
     (let missing_count = missing_lines_count comparison_data;
          extra_count = extra_lines_count comparison_data
      in [similarity_verdict (similarity comparison_data)]
         @ (if missing_count > 0
            then [MissingCount missing_count, MissingHeading]
                 @ map example_line (take 3 (example_missing comparison_data))
            else [])
         @ (if extra_count > 0
            then [ExtraCount extra_count, ExtraHeading]
                 @ map example_line (take 3 (example_extra comparison_data))
            else [])
         @ [Conclusion,
            if missing_count > extra_count then MainlyMissing
            else if extra_count > missing_count then MainlyExtra
            else MissingAndExtra])"

section \<open>Fetching a page\<close>

text \<open>
  What one call of the \<open>try\<close> block of \<open>extract_text_from_url\<close> meets (app.py, lines
  33-52): either an exception \<open>e\<close> of \<open>requests.get\<close>, \<open>raise_for_status\<close> or the parser,
  given by \<open>str(e)\<close>, or the text that \<open>get_text(separator='\n', strip=True)\<close> returns
  for the element chosen as the article body.
\<close>

datatype response = Raises pystr | Page pystr

text \<open>
  The results of a run: the \<open>'status': 'error'\<close> dictionary, the \<open>'status': 'success'\<close>
  dictionary of the first loop of \<open>main\<close>, and that of the second loop, whose examples
  are joined with \<open>" | "\<close>.
\<close>

datatype result =
    ErrorRecord (url: pystr) (error: pystr)
  | SuccessRecord (url: pystr) comparison
  | SuccessJoined (url: pystr) rat nat nat nat nat pystr pystr

text \<open>What the program prints, one constructor for each message.\<close>

datatype notice =
    Banner | Loading | ColumnsNotFound | Found nat
  | LoadError pystr pystr
  | EmptyLibText nat
  | RowError nat pystr pystr
  | FileError pystr
  | ReportsSaved
  | Processing nat nat pystr
  | EmptyLibText2
  | ParseError pystr
  | SimilarityIs rat

text \<open>
  The state a run threads: the URLs of the HTTP requests issued so far, the waits of the
  retry decorator, the printed messages, the calls of \<open>compare_texts\<close>, the list
  \<open>results\<close> of \<open>main\<close>, and the arguments with which the reports were called.
\<close>

record state =
  requests :: "pystr list"
  sleeps :: "nat list"
  console :: "notice list"
  compared :: "(pystr \<times> pystr) list"
  results :: "result list"
  reported :: "result list list"

definition say :: "notice \<Rightarrow> state \<Rightarrow> state" where
  "say n st = st\<lparr>console := console st @ [n]\<rparr>"

text \<open>
  \<open>re.sub(r'\n{2,}', '\n\n', text)\<close>: a run of two or more newlines becomes two newlines.
\<close>

function sub_newlines :: "pystr \<Rightarrow> pystr" where
  "sub_newlines (c # d # cs) =
     (if c = 10 \<and> d = 10 then 10 # 10 # sub_newlines (dropWhile (\<lambda>x. x = 10) cs)
      else c # sub_newlines (d # cs))"
| "sub_newlines [c] = [c]"
| "sub_newlines [] = []"
  by pat_completeness auto
termination
  by (relation "measure length") (auto simp: less_Suc_eq_le le_SucI length_dropWhile_le)

text \<open>
  The error prefix of the program, the Russian word for "error" (transliterated
  "Oshibka"): the code points U+041E U+0448 U+0438 U+0431 U+043A U+0430.
\<close>

definition oshibka :: pystr where
  "oshibka = [1054, 1096, 1080, 1073, 1082, 1072]"

text \<open>
  The body of \<open>extract_text_from_url\<close> (app.py, lines 32-57). The network is the
  parameter \<open>net\<close>: \<open>net n url\<close> is what the request for \<open>url\<close> meets when \<open>n\<close> requests
  have been issued before it. \<open>try_block\<close> is the \<open>try\<close> part, \<open>Inl\<close> an exception;
  \<open>extract_body\<close> adds the \<open>except Exception\<close> clause, which prints and returns
  the error prefix followed by \<open>": "\<close> and \<open>str(e)\<close>.
\<close>

definition try_block :: "(nat \<Rightarrow> pystr \<Rightarrow> response) \<Rightarrow> pystr \<Rightarrow> state \<Rightarrow> (pystr + pystr) \<times> state" where
  "try_block net URL st =
     (let st' = st\<lparr>requests := requests st @ [URL]\<rparr>
      in case net (length (requests st)) URL of
           Raises e \<Rightarrow> (Inl e, st')
         | Page text \<Rightarrow> (Inr (strip (sub_newlines text)), st'))"

definition extract_body :: "(nat \<Rightarrow> pystr \<Rightarrow> response) \<Rightarrow> pystr \<Rightarrow> state \<Rightarrow> (pystr + pystr) \<times> state" where
  "extract_body net URL st =
     (case try_block net URL st of
        (Inr text, st') \<Rightarrow> (Inr text, st')
      | (Inl e, st') \<Rightarrow> (Inr (oshibka @ str '': '' @ e), say (LoadError URL e) st'))"

text \<open>
  The decorator \<open>@retry(stop=stop_after_attempt(3), wait=wait_exponential(multiplier=1,
  min=4, max=10))\<close> of the \<open>tenacity\<close> library: the function is called; when the call
  raises, and the number of the attempt (from 1) has not reached the stop, the decorator
  sleeps \<open>wait\<close> of the attempt number and calls again; when the stop is reached it
  raises \<open>RetryError\<close>. \<open>wait_exponential\<close> is
  \<open>max(max(0, min), min(multiplier * 2 ** (attempt_number - 1), max))\<close>.
\<close>

definition wait_exponential :: "nat \<Rightarrow> nat \<Rightarrow> nat \<Rightarrow> nat \<Rightarrow> nat" where
  "wait_exponential multiplier min_wait max_wait attempt_number =
     max (max 0 min_wait) (min (multiplier * 2 ^ (attempt_number - 1)) max_wait)"

definition retry_error :: pystr where
  "retry_error = str ''RetryError''"

function retry :: "nat \<Rightarrow> (nat \<Rightarrow> nat) \<Rightarrow> nat \<Rightarrow> (state \<Rightarrow> (pystr + 'a) \<times> state) \<Rightarrow> state \<Rightarrow>
    (pystr + 'a) \<times> state" where
  "retry stop wait attempt_number f st =
     (case f st of
        (Inr v, st') \<Rightarrow> (Inr v, st')
      | (Inl e, st') \<Rightarrow>
          if stop \<le> attempt_number then (Inl retry_error, st')
          else retry stop wait (attempt_number + 1) f
                 (st'\<lparr>sleeps := sleeps st' @ [wait attempt_number]\<rparr>))"
  by pat_completeness auto
termination
  by (relation "measure (\<lambda>(stop, wait, attempt_number, f, st). stop - attempt_number)") auto

definition extract_text_from_url :: "(nat \<Rightarrow> pystr \<Rightarrow> response) \<Rightarrow> pystr \<Rightarrow> state \<Rightarrow> (pystr + pystr) \<times> state" where
  "extract_text_from_url net URL st =
     retry 3 (wait_exponential 1 4 10) 1 (extract_body net URL) st"

declare retry.simps [simp del]

section \<open>The batch run\<close>

text \<open>
  The table that \<open>pd.read_csv\<close> returns: the column labels and, for each row, the cell
  under each label. A cell of the file that holds text is \<open>Text\<close>; \<open>NaN\<close> is the missing
  value, and \<open>str(...)\<close> of it is \<open>'nan'\<close>.
\<close>

datatype cell = Text pystr | NaN

fun py_str :: "cell \<Rightarrow> pystr" where
  "py_str (Text s) = s"
| "py_str NaN = str ''nan''"

record dataframe =
  columns :: "pystr list"
  rows :: "(pystr \<Rightarrow> cell) list"

text \<open>
  What a run depends on and the program does not determine: the outcome of
  \<open>pd.read_csv\<close> (\<open>Inl\<close> the message of its exception), the network, \<open>str.lower()\<close>,
  the iteration order of sets, and the input/output of the three report writers
  (\<open>Some\<close> the message of an exception of theirs).
\<close>

record env =
  read_csv :: "pystr + dataframe"
  net :: "nat \<Rightarrow> pystr \<Rightarrow> response"
  py_lower :: "pystr \<Rightarrow> pystr"
  list_set :: "pystr list \<Rightarrow> pystr list"
  report_io :: "result list \<Rightarrow> pystr option"

text \<open>\<open>row[name]\<close>: \<open>KeyError\<close> when no column has the label; its \<open>str\<close> is the quoted label.\<close>

definition row_get :: "pystr list \<Rightarrow> (pystr \<Rightarrow> cell) \<Rightarrow> pystr \<Rightarrow> pystr + cell" where
  "row_get cols row name = (if name \<in> set cols then Inr (row name) else Inl ([39] @ name @ [39]))"

text \<open>\<open>sep.join(xs)\<close>\<close>

fun join :: "pystr \<Rightarrow> pystr list \<Rightarrow> pystr" where
  "join sep [] = []"
| "join sep [x] = x"
| "join sep (x # y # ys) = x @ sep @ join sep (y # ys)"

text \<open>
  One turn of the first loop of \<open>main\<close> (app.py, lines 445-483). The first component of
  the result is \<open>Some e\<close> when an exception leaves the loop: the two reads of the row are
  outside the inner \<open>try\<close>. Inside it, an exception of \<open>extract_text_from_url\<close> becomes an
  error record.
\<close>

definition first_loop_row :: "env \<Rightarrow> pystr list \<Rightarrow> nat \<times> (pystr \<Rightarrow> cell) \<Rightarrow> state \<Rightarrow> pystr option \<times> state" where
  "first_loop_row e cols r st =
     (case r of (idx, row) \<Rightarrow>
      (case row_get cols row (str ''URL'') of Inl err \<Rightarrow> (Some err, st) | Inr u \<Rightarrow>
      (case row_get cols row (str ''lib_text'') of Inl err \<Rightarrow> (Some err, st) | Inr l \<Rightarrow>
        let url = strip (py_str u); lib_text = strip (py_str l)
        in if lib_text = [] then (None, say (EmptyLibText (idx + 1)) st)
           else (case extract_text_from_url (net e) url st of
                   (Inl err, st') \<Rightarrow>
                     (None, say (RowError (idx + 1) url err)
                              (st'\<lparr>results := results st' @ [ErrorRecord url err]\<rparr>))
                 | (Inr original_text, st') \<Rightarrow>
                     if startswith original_text oshibka
                     then (None, st'\<lparr>results := results st' @ [ErrorRecord url original_text]\<rparr>)
                     else let comparison = compare_texts (py_lower e) (list_set e) original_text lib_text;
                              st'' = st'\<lparr>compared := compared st' @ [(original_text, lib_text)]\<rparr>
                          in (None, st''\<lparr>results := results st'' @ [SuccessRecord url comparison]\<rparr>)))))"

fun first_loop :: "env \<Rightarrow> pystr list \<Rightarrow> (nat \<times> (pystr \<Rightarrow> cell)) list \<Rightarrow> state \<Rightarrow> pystr option \<times> state" where
  "first_loop e cols [] st = (None, st)"
| "first_loop e cols (r # rest) st =
     (case first_loop_row e cols r st of
        (Some err, st') \<Rightarrow> (Some err, st')
      | (None, st') \<Rightarrow> first_loop e cols rest st')"

text \<open>
  \<open>save_results(results)\<close>, \<open>generate_comprehensive_report(results)\<close> and
  \<open>generate_html_report(results, OUTPUT_DIR)\<close> (app.py, lines 486-488). They receive the
  list \<open>results\<close> as it is then. Beyond their input/output, the second divides by
  \<open>len(results)\<close> (app.py, line 380), which raises \<open>ZeroDivisionError\<close> on the empty list.
\<close>

definition reports :: "env \<Rightarrow> state \<Rightarrow> pystr option \<times> state" where
  "reports e st =
     (let st' = st\<lparr>reported := reported st @ [results st]\<rparr>
      in case report_io e (results st) of
           Some err \<Rightarrow> (Some err, st')
         | None \<Rightarrow>
             if results st = [] then (Some (str ''division by zero''), st')
             else (None, say ReportsSaved st'))"

text \<open>
  One turn of the second loop of \<open>main\<close> (app.py, lines 496-532), which has no \<open>try\<close>:
  an exception leaves \<open>main\<close>.
\<close>

definition second_loop_row :: "env \<Rightarrow> pystr list \<Rightarrow> nat \<Rightarrow> nat \<times> (pystr \<Rightarrow> cell) \<Rightarrow> state \<Rightarrow> pystr option \<times> state" where
  "second_loop_row e cols n r st =
     (case r of (idx, row) \<Rightarrow>
      (case row_get cols row (str ''URL'') of Inl err \<Rightarrow> (Some err, st) | Inr u \<Rightarrow>
      (case row_get cols row (str ''lib_text'') of Inl err \<Rightarrow> (Some err, st) | Inr l \<Rightarrow>
        let url = strip (py_str u); lib_text = strip (py_str l);
            st0 = say (Processing (idx + 1) n url) st
        in if lib_text = [] then (None, say EmptyLibText2 st0)
           else (case extract_text_from_url (net e) url st0 of
                   (Inl err, st') \<Rightarrow> (Some err, st')
                 | (Inr original_text, st') \<Rightarrow>
                     if startswith original_text oshibka
                     then (None, (say (ParseError original_text) st')
                                   \<lparr>results := results st' @ [ErrorRecord url original_text]\<rparr>)
                     else let comparison = compare_texts (py_lower e) (list_set e) original_text lib_text;
                              st'' = st'\<lparr>compared := compared st' @ [(original_text, lib_text)]\<rparr>;
                              result = SuccessJoined url (similarity comparison)
                                (original_length comparison) (lib_length comparison)
                                (missing_lines_count comparison) (extra_lines_count comparison)
                                (join (str '' | '') (example_missing comparison))
                                (join (str '' | '') (example_extra comparison))
                          in (None, say (SimilarityIs (similarity comparison))
                                      (st''\<lparr>results := results st'' @ [result]\<rparr>))))))"

fun second_loop :: "env \<Rightarrow> pystr list \<Rightarrow> nat \<Rightarrow> (nat \<times> (pystr \<Rightarrow> cell)) list \<Rightarrow> state \<Rightarrow> pystr option \<times> state" where
  "second_loop e cols n [] st = (None, st)"
| "second_loop e cols n (r # rest) st =
     (case second_loop_row e cols n r st of
        (Some err, st') \<Rightarrow> (Some err, st')
      | (None, st') \<Rightarrow> second_loop e cols n rest st')"

text \<open>
  \<open>main\<close> (app.py, lines 428-532); \<open>ensure_directory_exists\<close> is taken to succeed. The
  result is \<open>Some e\<close> when an exception leaves \<open>main\<close>, and the final state.
  \<open>df_input.iterrows()\<close> gives the rows with their index from 0.
\<close>

definition initial :: state where
  "initial = \<lparr>requests = [], sleeps = [], console = [], compared = [], results = [], reported = []\<rparr>"

text \<open>
  The test of app.py, line 439:
  \<^verbatim>\<open>all(col.lower() in [c.lower() for c in df_input.columns] for col in ['URL', 'lib_text'])\<close>
\<close>

definition required_columns :: "(pystr \<Rightarrow> pystr) \<Rightarrow> pystr list \<Rightarrow> bool" where
  "required_columns lower cols \<longleftrightarrow>
     (\<forall>col \<in> set [str ''URL'', str ''lib_text'']. lower col \<in> set (map lower cols))"

definition main :: "env \<Rightarrow> pystr option \<times> state" where
  "main e =
     (let st0 = say Loading (say Banner initial)
      in case read_csv e of
           Inl err \<Rightarrow> (None, say (FileError err) st0)
         | Inr df_input \<Rightarrow>
             let cols = map strip (columns df_input);
                 n = length (rows df_input);
                 indexed = zip [0..<n] (rows df_input)
             in if \<not> required_columns (py_lower e) cols then (None, say ColumnsNotFound st0)
                else (case first_loop e cols indexed (say (Found n) st0) of
                        (Some err, st1) \<Rightarrow> (None, say (FileError err) st1)
                      | (None, st1) \<Rightarrow>
                          (case reports e st1 of
                             (Some err, st2) \<Rightarrow> (None, say (FileError err) st2)
                           | (None, st2) \<Rightarrow> second_loop e cols n indexed (say (Found n) st2))))"

section \<open>Example inputs\<close>

text \<open>
  The inputs of the examples are ASCII texts, on which \<open>str.lower()\<close> changes the
  letters A to Z only; \<open>ascii_lower\<close> is that function. Then a server that answers every
  request with the error 404, a server that serves one text, a table with the given
  column labels, and a run whose reports are written without an error.
\<close>

definition ascii_lower :: "pystr \<Rightarrow> pystr" where
  "ascii_lower s = map (\<lambda>c. if 65 \<le> c \<and> c \<le> 90 then c + 32 else c) s"

definition always_404 :: "nat \<Rightarrow> pystr \<Rightarrow> response" where
  "always_404 n u = Raises (str ''404'')"

definition serves :: "pystr \<Rightarrow> nat \<Rightarrow> pystr \<Rightarrow> response" where
  "serves text n u = Page text"

definition table_row :: "cell \<Rightarrow> cell \<Rightarrow> pystr \<Rightarrow> cell" where
  "table_row u l name = (if name = str ''URL'' then u else l)"

definition table :: "(pystr \<Rightarrow> cell) list \<Rightarrow> dataframe" where
  "table rs = \<lparr>columns = [str ''URL'', str ''lib_text''], rows = rs\<rparr>"

text \<open>The same table when the header of the file is \<open>url,lib_text\<close>.\<close>

definition lowercase_row :: "cell \<Rightarrow> cell \<Rightarrow> pystr \<Rightarrow> cell" where
  "lowercase_row u l name = (if name = str ''url'' then u else l)"

definition lowercase_table :: "(pystr \<Rightarrow> cell) list \<Rightarrow> dataframe" where
  "lowercase_table rs = \<lparr>columns = [str ''url'', str ''lib_text''], rows = rs\<rparr>"

definition no_report_error :: "result list \<Rightarrow> pystr option" where
  "no_report_error rs = None"

definition run_on :: "dataframe \<Rightarrow> (nat \<Rightarrow> pystr \<Rightarrow> response) \<Rightarrow> env" where
  "run_on df nw =
     \<lparr>read_csv = Inr df, net = nw, py_lower = ascii_lower, list_set = remdups,
      report_io = no_report_error\<rparr>"

definition run_of :: "(nat \<Rightarrow> pystr \<Rightarrow> response) \<Rightarrow> (pystr \<Rightarrow> cell) list \<Rightarrow> env" where
  "run_of nw rs =
     \<lparr>read_csv = Inr (table rs), net = nw, py_lower = ascii_lower, list_set = remdups,
      report_io = no_report_error\<rparr>"

text \<open>The URL and the candidate text of a row, as both loops of \<open>main\<close> compute them.\<close>

definition row_url :: "(pystr \<Rightarrow> cell) \<Rightarrow> pystr" where
  "row_url row = strip (py_str (row (str ''URL'')))"

definition row_lib_text :: "(pystr \<Rightarrow> cell) \<Rightarrow> pystr" where
  "row_lib_text row = strip (py_str (row (str ''lib_text'')))"

section \<open>Properties of the normaliser\<close>

lemma isspace_32: "isspace 32"
  by (simp add: isspace_def)

lemma dropWhile_unchanged: "s = [] \<or> \<not> P (hd s) \<Longrightarrow> dropWhile P s = s"
  by (cases s) auto

lemma strip_trimmed: "trimmed s \<Longrightarrow> strip s = s"
  unfolding trimmed_def strip_def
  by (cases "s = []") (simp_all add: dropWhile_unchanged hd_rev)

lemma last_dropWhile_nonempty: "dropWhile P xs \<noteq> [] \<Longrightarrow> last (dropWhile P xs) = last xs"
  by (induction xs) (auto split: if_splits)

lemma trimmed_strip: "trimmed (strip s)"
proof -
  define d where "d = dropWhile isspace s"
  define x where "x = dropWhile isspace (rev d)"
  have s: "strip s = rev x" by (simp add: strip_def d_def x_def)
  show ?thesis
  proof (cases "x = []")
    case True
    then show ?thesis by (simp add: s trimmed_def)
  next
    case False
    then have hx: "\<not> isspace (hd x)" unfolding x_def by (simp add: hd_dropWhile)
    have "last x = last (rev d)" using False unfolding x_def by (rule last_dropWhile_nonempty)
    moreover have "d \<noteq> []" using False unfolding x_def by auto
    ultimately have "last x = hd d" by (simp add: last_rev)
    moreover have "\<not> isspace (hd d)" using \<open>d \<noteq> []\<close> unfolding d_def by (simp add: hd_dropWhile)
    ultimately show ?thesis using False hx by (simp add: s trimmed_def hd_rev last_rev)
  qed
qed

lemma sub_ws_Nil_iff: "sub_ws s = [] \<longleftrightarrow> s = []"
  by (cases s) auto

lemma hd_sub_ws: "s \<noteq> [] \<Longrightarrow> \<not> isspace (hd s) \<Longrightarrow> hd (sub_ws s) = hd s"
  by (cases s) auto

lemma last_sub_ws: "s \<noteq> [] \<Longrightarrow> \<not> isspace (last s) \<Longrightarrow> last (sub_ws s) = last s"
proof (induction s rule: sub_ws.induct)
  case 1
  then show ?case by simp
next
  case (2 c cs)
  show ?case
  proof (cases "isspace c")
    case True
    have ne: "dropWhile isspace cs \<noteq> []"
    proof
      assume e: "dropWhile isspace cs = []"
      then have "\<forall>x\<in>set cs. isspace x" by (simp add: dropWhile_eq_Nil_conv)
      then have "isspace (last (c # cs))" using True by (cases "cs = []") auto
      then show False using "2.prems" by simp
    qed
    then have cs: "cs \<noteq> []" by auto
    have l: "last (dropWhile isspace cs) = last cs" using ne by (rule last_dropWhile_nonempty)
    have "last (sub_ws (dropWhile isspace cs)) = last (dropWhile isspace cs)"
      using "2.IH"(1) [OF True ne] "2.prems" cs l by simp
    then have e: "last (sub_ws (dropWhile isspace cs)) = last cs" using l by simp
    have sn: "sub_ws (dropWhile isspace cs) \<noteq> []" using ne by (simp only: sub_ws_Nil_iff not_False_eq_True)
    have "sub_ws (c # cs) = 32 # sub_ws (dropWhile isspace cs)" using True by simp
    then have "last (sub_ws (c # cs)) = last (sub_ws (dropWhile isspace cs))"
      using sn by simp
    also have "\<dots> = last (c # cs)" using e cs by simp
    finally show ?thesis .
  next
    case False
    show ?thesis
    proof (cases "cs = []")
      case True
      then show ?thesis using False by simp
    next
      case nonempty: False
      then have "last (sub_ws cs) = last cs" using "2.IH"(2) [OF False] "2.prems" by simp
      then show ?thesis using False nonempty by (simp add: sub_ws_Nil_iff)
    qed
  qed
qed

lemma trimmed_sub_ws: "trimmed s \<Longrightarrow> trimmed (sub_ws s)"
  unfolding trimmed_def
  by (cases "s = []") (auto simp: sub_ws_Nil_iff hd_sub_ws last_sub_ws)

lemma sub_ws_idem: "sub_ws (sub_ws s) = sub_ws s"
proof (induction s rule: sub_ws.induct)
  case 1
  then show ?case by simp
next
  case (2 c cs)
  show ?case
  proof (cases "isspace c")
    case True
    define u where "u = dropWhile isspace cs"
    have u: "u = [] \<or> \<not> isspace (hd u)"
      unfolding u_def by (cases "dropWhile isspace cs = []") (simp_all only: hd_dropWhile simp_thms)
    have "sub_ws u = [] \<or> \<not> isspace (hd (sub_ws u))"
      using u by (auto simp: hd_sub_ws sub_ws_Nil_iff)
    then have "dropWhile isspace (sub_ws u) = sub_ws u" by (rule dropWhile_unchanged)
    then show ?thesis
      using True "2.IH"(1) by (simp add: u_def isspace_32)
  next
    case False
    then show ?thesis using "2.IH"(2) by simp
  qed
qed

lemma set_sub_ws: "set (sub_ws s) \<subseteq> insert 32 (set s)"
proof (induction s rule: sub_ws.induct)
  case 1
  then show ?case by simp
next
  case (2 c cs)
  have "set (dropWhile isspace cs) \<subseteq> set cs" by (rule set_dropWhileD [THEN subsetI])
  then show ?case using 2 by (cases "isspace c") auto
qed

lemma trimmed_normalize: "lower_contract lower \<Longrightarrow> trimmed (normalize_text lower s)"
  unfolding normalize_text_def lower_contract_def
  by (intro trimmed_sub_ws) (simp add: trimmed_strip)

text \<open>\<open>ascii_lower\<close> has the two properties.\<close>

lemma ascii_lower_contract: "lower_contract ascii_lower"
proof -
  have 1: "trimmed (ascii_lower s)" if "trimmed s" for s
  proof (cases "s = []")
    case True
    then show ?thesis by (simp add: trimmed_def ascii_lower_def)
  next
    case False
    then have "\<not> isspace (hd s)" "\<not> isspace (last s)" using that by (simp_all add: trimmed_def)
    then show ?thesis using False
      by (auto simp: trimmed_def ascii_lower_def hd_map last_map isspace_def)
  qed
  have 2: "ascii_lower t = t" if "set t \<subseteq> insert 32 (set (ascii_lower s))" for s t
  proof -
    have "\<not> (65 \<le> c \<and> c \<le> 90)" if "c \<in> set t" for c
      using \<open>set t \<subseteq> insert 32 (set (ascii_lower s))\<close> that
      by (auto simp: ascii_lower_def split: if_splits)
    then show ?thesis unfolding ascii_lower_def by (intro map_idI) auto
  qed
  show ?thesis unfolding lower_contract_def using 1 2 by blast
qed

text \<open>
  Claim C5. Normalising twice is the same as normalising once: for every string \<open>s\<close>,
  \<open>normalize(normalize(s)) = normalize(s)\<close>, where \<open>normalize\<close> trims both ends, lowercases
  and collapses every whitespace run (newlines included) to one space. It is proved for
  every lowercasing function with the two properties of \<open>lower_contract\<close>.
\<close>

theorem normalize_idempotent:
  assumes "lower_contract lower"
  shows "normalize_text lower (normalize_text lower s) = normalize_text lower s"
proof -
  define u where "u = lower (strip s)"
  have n: "normalize_text lower s = sub_ws u" by (simp add: normalize_text_def u_def)
  have "strip (sub_ws u) = sub_ws u"
    using trimmed_normalize [OF assms, of s] by (simp add: n strip_trimmed)
  moreover have "lower (sub_ws u) = sub_ws u"
    using assms set_sub_ws [of u] unfolding lower_contract_def u_def by blast
  ultimately have "normalize_text lower (sub_ws u) = sub_ws (sub_ws u)"
    by (simp add: normalize_text_def)
  then show ?thesis by (simp add: n sub_ws_idem)
qed

lemma normalize_example:
  "normalize_text ascii_lower (str '' Tide  Diet'') = str ''tide diet''"
  by (simp add: normalize_text_def strip_def ascii_lower_def isspace_def str_def)

theorem normalize_idempotent_witness:
  "lower_contract ascii_lower \<and>
   normalize_text ascii_lower (str '' Tide  Diet'') = str ''tide diet'' \<and>
   normalize_text ascii_lower (normalize_text ascii_lower (str '' Tide  Diet''))
     = normalize_text ascii_lower (str '' Tide  Diet'')"
  using normalize_idempotent [OF ascii_lower_contract, of "str '' Tide  Diet''"]
    ascii_lower_contract normalize_example
  by simp


section \<open>Properties of the fetch\<close>

lemma say_fields [simp]:
  "requests (say n st) = requests st" "sleeps (say n st) = sleeps st"
  "console (say n st) = console st @ [n]" "compared (say n st) = compared st"
  "results (say n st) = results st" "reported (say n st) = reported st"
  by (simp_all add: say_def)

lemma retry_returns: "f st = (Inr v, st') \<Longrightarrow> retry stop wait n f st = (Inr v, st')"
  by (subst retry.simps) simp

lemma extract_body_eq:
  "extract_body nw URL st =
     (case nw (length (requests st)) URL of
        Raises e \<Rightarrow> (Inr (oshibka @ str '': '' @ e),
                      say (LoadError URL e) (st\<lparr>requests := requests st @ [URL]\<rparr>))
      | Page text \<Rightarrow> (Inr (strip (sub_newlines text)), st\<lparr>requests := requests st @ [URL]\<rparr>))"
  by (simp add: extract_body_def try_block_def Let_def split: response.splits)

lemma extract_body_returns: "\<exists>t st'. extract_body nw URL st = (Inr t, st')"
  by (simp add: extract_body_eq split: response.splits)

lemma extract_text_from_url_eq: "extract_text_from_url nw URL st = extract_body nw URL st"
proof -
  obtain t st' where b: "extract_body nw URL st = (Inr t, st')"
    using extract_body_returns by blast
  then show ?thesis
    unfolding extract_text_from_url_def by (simp add: retry_returns)
qed

text \<open>
  Claim C1. The body of \<open>extract_text_from_url\<close> catches every exception itself and
  returns a text, so the retry decorator never sees a failure: whatever the number of
  attempts and the waits that the policy is given, the decorated function is the body.
  A fetch issues one request and makes no wait. For a URL that answers 404 at every
  attempt, the fetch makes 1 attempt, not 3, waits never, and ends with the error text
  as its value, not with the terminal error of the policy.
\<close>

theorem fetch_never_retries:
  "retry stop w n (extract_body nw URL) st = extract_body nw URL st \<and>
   extract_text_from_url nw URL st = extract_body nw URL st \<and>
   requests (snd (extract_text_from_url nw URL st)) = requests st @ [URL] \<and>
   sleeps (snd (extract_text_from_url nw URL st)) = sleeps st \<and>
   extract_text_from_url always_404 (str ''http://a'') initial =
     (Inr (oshibka @ str '': '' @ str ''404''),
      say (LoadError (str ''http://a'') (str ''404''))
        (initial\<lparr>requests := [str ''http://a'']\<rparr>)) \<and>
   requests (snd (extract_text_from_url always_404 (str ''http://a'') initial))
     = [str ''http://a''] \<and>
   sleeps (snd (extract_text_from_url always_404 (str ''http://a'') initial)) = []"
proof -
  obtain t st' where b: "extract_body nw URL st = (Inr t, st')"
    using extract_body_returns by blast
  have 1: "retry stop w n (extract_body nw URL) st = extract_body nw URL st"
    using b by (simp add: retry_returns)
  have 2: "requests (snd (extract_text_from_url nw URL st)) = requests st @ [URL]"
    "sleeps (snd (extract_text_from_url nw URL st)) = sleeps st"
    by (simp_all add: extract_text_from_url_eq extract_body_eq split: response.splits)
  have 3: "extract_text_from_url always_404 (str ''http://a'') initial =
     (Inr (oshibka @ str '': '' @ str ''404''),
      say (LoadError (str ''http://a'') (str ''404''))
        (initial\<lparr>requests := [str ''http://a'']\<rparr>))"
    by (simp add: extract_text_from_url_eq extract_body_eq always_404_def initial_def)
  have 4: "requests (snd (extract_text_from_url always_404 (str ''http://a'') initial))
     = [str ''http://a'']"
    "sleeps (snd (extract_text_from_url always_404 (str ''http://a'') initial)) = []"
    by (simp_all add: 3) (simp_all add: initial_def)
  show ?thesis using 1 2 3 4 extract_text_from_url_eq [of nw URL st] by simp
qed

text \<open>
  Claim C10. The fetch-and-extract operation always returns a value and never an
  exception: the extracted text when the page is served, and a text beginning with the
  error prefix when the attempt fails. A served page whose extracted text begins with
  the error prefix is therefore recorded by the batch loop as an error record that
  carries the page text, and the comparator is not called for it.
\<close>

theorem extract_total_and_in_band_error:
  "(\<exists>t. extract_text_from_url nw URL st =
          (Inr t, snd (extract_text_from_url nw URL st)) \<and>
        (case nw (length (requests st)) URL of
           Page text \<Rightarrow> t = strip (sub_newlines text)
         | Raises err \<Rightarrow> t = oshibka @ str '': '' @ err \<and> startswith t oshibka)) \<and>
   (str ''URL'' \<in> set cols \<longrightarrow> str ''lib_text'' \<in> set cols \<longrightarrow> row_lib_text row \<noteq> [] \<longrightarrow>
    net e (length (requests st)) (row_url row) = Page text \<longrightarrow>
    startswith (strip (sub_newlines text)) oshibka \<longrightarrow>
    first_loop_row e cols (idx, row) st =
      (None, st\<lparr>requests := requests st @ [row_url row],
                 results := results st @ [ErrorRecord (row_url row) (strip (sub_newlines text))]\<rparr>))"
proof (intro conjI impI)
  show "\<exists>t. extract_text_from_url nw URL st =
          (Inr t, snd (extract_text_from_url nw URL st)) \<and>
        (case nw (length (requests st)) URL of
           Page text \<Rightarrow> t = strip (sub_newlines text)
         | Raises err \<Rightarrow> t = oshibka @ str '': '' @ err \<and> startswith t oshibka)"
    by (cases "nw (length (requests st)) URL")
      (simp_all add: extract_text_from_url_eq extract_body_eq startswith_def)
next
  assume "str ''URL'' \<in> set cols" "str ''lib_text'' \<in> set cols" "row_lib_text row \<noteq> []"
    "net e (length (requests st)) (row_url row) = Page text"
    "startswith (strip (sub_newlines text)) oshibka"
  then show "first_loop_row e cols (idx, row) st =
      (None, st\<lparr>requests := requests st @ [row_url row],
                 results := results st @ [ErrorRecord (row_url row) (strip (sub_newlines text))]\<rparr>)"
    by (simp add: first_loop_row_def row_get_def row_url_def row_lib_text_def Let_def
        extract_text_from_url_eq extract_body_eq)
qed

lemma str_URL_neq: "str ''lib_text'' \<noteq> str ''URL''"
  by (simp add: str_def)

lemma table_row_cells [simp]:
  "table_row u l (str ''URL'') = u" "table_row u l (str ''lib_text'') = l"
  using str_URL_neq by (simp_all add: table_row_def)

lemma strip_x: "strip (str ''x'') = str ''x''"
  by (simp add: str_def strip_def isspace_def)

lemma strip_url_a: "strip (str ''http://a'') = str ''http://a''"
  by (simp add: str_def strip_def isspace_def)

lemma error_page_text:
  "strip (sub_newlines (oshibka @ str '' 404'')) = oshibka @ str '' 404''"
  by (simp add: oshibka_def str_def strip_def isspace_def)

theorem extract_total_and_in_band_error_witness:
  "str ''URL'' \<in> set [str ''URL'', str ''lib_text''] \<and>
   str ''lib_text'' \<in> set [str ''URL'', str ''lib_text''] \<and>
   row_lib_text (table_row (Text (str ''http://a'')) (Text (str ''x''))) \<noteq> [] \<and>
   net (run_of (serves (oshibka @ str '' 404'')) []) (length (requests initial))
     (row_url (table_row (Text (str ''http://a'')) (Text (str ''x''))))
     = Page (oshibka @ str '' 404'') \<and>
   startswith (strip (sub_newlines (oshibka @ str '' 404''))) oshibka \<and>
   first_loop_row (run_of (serves (oshibka @ str '' 404'')) []) [str ''URL'', str ''lib_text'']
     (0, table_row (Text (str ''http://a'')) (Text (str ''x''))) initial =
     (None, initial\<lparr>requests := [str ''http://a''],
                      results := [ErrorRecord (str ''http://a'') (oshibka @ str '' 404'')]\<rparr>)"
proof -
  let ?row = "table_row (Text (str ''http://a'')) (Text (str ''x''))"
  let ?e = "run_of (serves (oshibka @ str '' 404'')) []"
  have h1: "str ''URL'' \<in> set [str ''URL'', str ''lib_text'']"
    and h2: "str ''lib_text'' \<in> set [str ''URL'', str ''lib_text'']" by simp_all
  have h3: "row_lib_text ?row \<noteq> []"
    by (simp add: row_lib_text_def strip_x) (simp add: str_def)
  have u: "row_url ?row = str ''http://a''"
    by (simp add: row_url_def strip_url_a)
  have h4: "net ?e (length (requests initial)) (row_url ?row) = Page (oshibka @ str '' 404'')"
    by (simp add: run_of_def serves_def)
  have h5: "startswith (strip (sub_newlines (oshibka @ str '' 404''))) oshibka"
    by (simp add: error_page_text startswith_def)
  from extract_total_and_in_band_error
    [of always_404 "[]" initial "[str ''URL'', str ''lib_text'']" ?row ?e
      "oshibka @ str '' 404''" 0]
    h1 h2 h3 h4 h5
  have "first_loop_row ?e [str ''URL'', str ''lib_text''] (0, ?row) initial =
      (None, initial\<lparr>requests := requests initial @ [row_url ?row],
         results := results initial @
           [ErrorRecord (row_url ?row) (strip (sub_newlines (oshibka @ str '' 404'')))]\<rparr>)"
    by blast
  then have "first_loop_row ?e [str ''URL'', str ''lib_text''] (0, ?row) initial =
      (None, initial\<lparr>requests := [str ''http://a''],
         results := [ErrorRecord (str ''http://a'') (oshibka @ str '' 404'')]\<rparr>)"
    by (simp add: u error_page_text initial_def)
  then show ?thesis using h1 h2 h3 h4 h5 by blast
qed


section \<open>Properties of the batch loop\<close>

text \<open>
  The guard \<open>if not lib_text\<close> of both loops skips a row whose candidate text is empty
  after \<open>str(...).strip()\<close>, that is, a cell that holds whitespace only: the turn only
  prints the notice.
\<close>

lemma blank_candidate_row_skipped:
  assumes "str ''URL'' \<in> set cols" and "str ''lib_text'' \<in> set cols"
    and "row_lib_text row = []"
  shows "first_loop_row e cols (idx, row) st = (None, say (EmptyLibText (idx + 1)) st) \<and>
    second_loop_row e cols n (idx, row) st =
      (None, say EmptyLibText2 (say (Processing (idx + 1) n (row_url row)) st))"
  using assms
  by (simp add: first_loop_row_def second_loop_row_def row_get_def row_lib_text_def
      row_url_def Let_def)

lemma strip_nan: "strip (str ''nan'') = str ''nan''"
  by (simp add: str_def strip_def isspace_def)

lemma page_diet: "strip (sub_newlines (str ''diet'')) = str ''diet''"
  by (simp add: str_def strip_def isspace_def)

lemma diet_not_error: "\<not> startswith (str ''diet'') oshibka"
  by (simp add: startswith_def str_def oshibka_def)

text \<open>
  Claim C8. An empty field of the file is not an empty text in the table:
  \<open>pd.read_csv\<close>, called with its default arguments, reads it as the missing value, and
  \<open>str\<close> of the missing value is \<open>'nan'\<close>. The guard does not skip such a row. With a
  server that serves a page, both loops issue the request and call the comparator on
  the page and \<open>'nan'\<close>, and the first appends a success record; with a server that fails,
  the first loop appends an error record for the row.
\<close>

theorem missing_candidate_cell_not_skipped:
  "row_lib_text (table_row u NaN) = str ''nan'' \<and>
   first_loop_row (run_of (serves (str ''diet'')) []) [str ''URL'', str ''lib_text'']
       (0, table_row (Text (str ''http://a'')) NaN) initial =
     (None, initial\<lparr>requests := [str ''http://a''],
        compared := [(str ''diet'', str ''nan'')],
        results := [SuccessRecord (str ''http://a'')
          (compare_texts ascii_lower remdups (str ''diet'') (str ''nan''))]\<rparr>) \<and>
   requests (snd (second_loop_row (run_of (serves (str ''diet'')) [])
       [str ''URL'', str ''lib_text''] 1 (0, table_row (Text (str ''http://a'')) NaN) initial))
     = [str ''http://a''] \<and>
   compared (snd (second_loop_row (run_of (serves (str ''diet'')) [])
       [str ''URL'', str ''lib_text''] 1 (0, table_row (Text (str ''http://a'')) NaN) initial))
     = [(str ''diet'', str ''nan'')] \<and>
   results (snd (first_loop_row (run_of always_404 []) [str ''URL'', str ''lib_text'']
       (0, table_row (Text (str ''http://a'')) NaN) initial))
     = [ErrorRecord (str ''http://a'') (oshibka @ str '': '' @ str ''404'')]"
proof -
  let ?row = "table_row (Text (str ''http://a'')) NaN"
  let ?cols = "[str ''URL'', str ''lib_text'']"
  have ne: "str ''nan'' \<noteq> []" by (simp add: str_def)
  have 1: "row_lib_text (table_row u NaN) = str ''nan''"
    by (simp add: row_lib_text_def strip_nan)
  have 2: "first_loop_row (run_of (serves (str ''diet'')) []) ?cols (0, ?row) initial =
     (None, initial\<lparr>requests := [str ''http://a''],
        compared := [(str ''diet'', str ''nan'')],
        results := [SuccessRecord (str ''http://a'')
          (compare_texts ascii_lower remdups (str ''diet'') (str ''nan''))]\<rparr>)"
    using ne diet_not_error
    by (simp add: first_loop_row_def row_get_def Let_def strip_url_a strip_nan
        extract_text_from_url_eq extract_body_eq run_of_def serves_def page_diet initial_def)
  have 3: "requests (snd (second_loop_row (run_of (serves (str ''diet'')) []) ?cols 1
        (0, ?row) initial)) = [str ''http://a'']"
    "compared (snd (second_loop_row (run_of (serves (str ''diet'')) []) ?cols 1
        (0, ?row) initial)) = [(str ''diet'', str ''nan'')]"
    using ne diet_not_error
    by (simp_all add: second_loop_row_def row_get_def Let_def strip_url_a strip_nan
        extract_text_from_url_eq extract_body_eq run_of_def serves_def page_diet initial_def)
  have 4: "results (snd (first_loop_row (run_of always_404 []) ?cols (0, ?row) initial))
     = [ErrorRecord (str ''http://a'') (oshibka @ str '': '' @ str ''404'')]"
    using ne
    by (simp add: first_loop_row_def row_get_def Let_def strip_url_a strip_nan
        extract_text_from_url_eq extract_body_eq run_of_def always_404_def initial_def
        startswith_def)
  show ?thesis using 1 2 3 4 by simp
qed

text \<open>
  One turn of the first loop, when the table has the two columns: no exception leaves
  the turn; a skipped row changes neither the requests nor the results, and any other
  row issues one request for its URL and appends one record for its URL.
\<close>

lemma first_loop_row_step:
  assumes "str ''URL'' \<in> set cols" and "str ''lib_text'' \<in> set cols"
  shows "\<exists>st'. first_loop_row e cols (idx, row) st = (None, st') \<and>
    reported st' = reported st \<and>
    (if row_lib_text row = [] then results st' = results st \<and> requests st' = requests st
     else (\<exists>r. results st' = results st @ [r] \<and> url r = row_url row) \<and>
          requests st' = requests st @ [row_url row])"
proof (cases "row_lib_text row = []")
  case True
  then show ?thesis using assms
    by (simp add: first_loop_row_def row_get_def row_lib_text_def Let_def)
next
  case False
  show ?thesis
  proof (cases "net e (length (requests st)) (row_url row)")
    case (Raises err)
    then show ?thesis using assms False
      by (simp add: first_loop_row_def row_get_def row_lib_text_def row_url_def Let_def
          extract_text_from_url_eq extract_body_eq)
  next
    case (Page page)
    then show ?thesis using assms False
      by (simp add: first_loop_row_def row_get_def row_lib_text_def row_url_def Let_def
          extract_text_from_url_eq extract_body_eq)
  qed
qed

lemma first_loop_all_rows:
  assumes "str ''URL'' \<in> set cols" and "str ''lib_text'' \<in> set cols"
  shows "fst (first_loop e cols indexed st) = None \<and>
    reported (snd (first_loop e cols indexed st)) = reported st \<and>
    map url (results (snd (first_loop e cols indexed st))) =
      map url (results st) @
      map (row_url \<circ> snd) (filter (\<lambda>r. row_lib_text (snd r) \<noteq> []) indexed) \<and>
    requests (snd (first_loop e cols indexed st)) =
      requests st @ map (row_url \<circ> snd) (filter (\<lambda>r. row_lib_text (snd r) \<noteq> []) indexed)"
proof (induction indexed arbitrary: st)
  case Nil
  then show ?case by simp
next
  case (Cons r rest)
  obtain idx row where r: "r = (idx, row)" by (cases r) auto
  from first_loop_row_step [OF assms, of e idx row st]
  obtain st' where s: "first_loop_row e cols (idx, row) st = (None, st')"
    "reported st' = reported st"
    "if row_lib_text row = [] then results st' = results st \<and> requests st' = requests st
     else (\<exists>r. results st' = results st @ [r] \<and> url r = row_url row) \<and>
          requests st' = requests st @ [row_url row]"
    by blast
  have l: "first_loop e cols (r # rest) st = first_loop e cols rest st'"
    using s(1) r by simp
  have sr: "snd r = row" using r by simp
  show ?case
  proof (cases "row_lib_text row = []")
    case True
    then show ?thesis using Cons.IH [of st'] s(2,3) sr by (simp only: l) simp
  next
    case False
    then obtain rec where "results st' = results st @ [rec]" "url rec = row_url row"
      "requests st' = requests st @ [row_url row]"
      using s(3) by auto
    then show ?thesis using Cons.IH [of st'] s(2) sr False by (simp only: l) simp
  qed
qed

lemma second_loop_row_reported:
  "reported (snd (second_loop_row e cols n r st)) = reported st"
  by (cases r)
    (auto simp: second_loop_row_def Let_def extract_text_from_url_eq extract_body_eq
      split: sum.splits response.splits)

lemma second_loop_reported:
  "reported (snd (second_loop e cols n indexed st)) = reported st"
proof (induction indexed arbitrary: st)
  case Nil
  then show ?case by simp
next
  case (Cons r rest)
  obtain x st' where s: "second_loop_row e cols n r st = (x, st')"
    by (cases "second_loop_row e cols n r st") auto
  then have "reported st' = reported st"
    using second_loop_row_reported [of e cols n r st] by simp
  then show ?case using s Cons.IH [of st'] by (cases x) simp_all
qed

lemma rows_of_indexed:
  "map (f \<circ> snd) (filter (\<lambda>r. P (snd r)) (zip [0..<length xs] xs)) = map f (filter P xs)"
proof -
  have "map snd (zip [0..<length xs] xs) = xs" by (simp add: map_snd_zip)
  then have "filter P xs = map snd (filter (P \<circ> snd) (zip [0..<length xs] xs))"
    by (metis filter_map)
  then show ?thesis by (simp add: comp_def)
qed

text \<open>What the reports receive, when the file is read and has the two columns.\<close>

lemma main_hands_over:
  assumes "read_csv e = Inr df" and "str ''URL'' \<in> set (map strip (columns df))"
    and "str ''lib_text'' \<in> set (map strip (columns df))"
  shows "\<exists>rs. reported (snd (main e)) = [rs] \<and>
    map url rs = map row_url (filter (\<lambda>row. row_lib_text row \<noteq> []) (rows df))"
proof -
  let ?cols = "map strip (columns df)"
  let ?n = "length (rows df)"
  let ?indexed = "zip [0..<?n] (rows df)"
  let ?st0 = "say (Found ?n) (say Loading (say Banner initial))"
  have req: "required_columns (py_lower e) ?cols"
    using assms(2,3) by (auto simp: required_columns_def)
  obtain x st1 where f: "first_loop e ?cols ?indexed ?st0 = (x, st1)"
    by (cases "first_loop e ?cols ?indexed ?st0") auto
  from first_loop_all_rows [OF assms(2,3), of e ?indexed ?st0] f
  have x: "x = None" and rep: "reported st1 = []"
    and urls: "map url (results st1) =
      map (row_url \<circ> snd) (filter (\<lambda>r. row_lib_text (snd r) \<noteq> []) ?indexed)"
    by (simp_all add: initial_def)
  have urls': "map url (results st1) = map row_url (filter (\<lambda>row. row_lib_text row \<noteq> []) (rows df))"
    using urls rows_of_indexed [of row_url "\<lambda>row. row_lib_text row \<noteq> []" "rows df"] by simp
  obtain y st2 where r: "reports e st1 = (y, st2)" by (cases "reports e st1") auto
  have rep2: "reported st2 = [results st1]"
    using r rep by (auto simp: reports_def Let_def split: option.splits if_splits)
  have "reported (snd (main e)) = [results st1]"
  proof (cases y)
    case None
    then show ?thesis
      using assms(1) req f x r rep2
      by (simp add: main_def Let_def second_loop_reported)
  next
    case (Some err)
    then show ?thesis
      using assms(1) req f x r rep2 by (simp add: main_def Let_def)
  qed
  then show ?thesis using urls' by blast
qed


lemma first_loop_key_error:
  assumes "\<not> (str ''URL'' \<in> set cols \<and> str ''lib_text'' \<in> set cols)" and "indexed \<noteq> []"
  shows "\<exists>err. first_loop e cols indexed st = (Some err, st)"
proof -
  obtain idx row rest where i: "indexed = (idx, row) # rest"
    using assms(2) by (cases indexed) auto
  have "\<exists>err. first_loop_row e cols (idx, row) st = (Some err, st)"
    using assms(1) by (auto simp: first_loop_row_def row_get_def)
  then show ?thesis using i by auto
qed

lemma exact_columns_required:
  "str ''URL'' \<in> set cols \<Longrightarrow> str ''lib_text'' \<in> set cols \<Longrightarrow> required_columns lower cols"
  by (auto simp: required_columns_def)

lemma strip_URL: "strip (str ''URL'') = str ''URL''"
  by (simp add: str_def strip_def isspace_def)

lemma strip_lib_text: "strip (str ''lib_text'') = str ''lib_text''"
  by (simp add: str_def strip_def isspace_def)

lemma table_columns: "map strip (columns (table rs)) = [str ''URL'', str ''lib_text'']"
  by (simp add: table_def strip_URL strip_lib_text)

text \<open>
  The test of the columns ignores the case of the labels, the reads \<open>row['URL']\<close> and
  \<open>row['lib_text']\<close> do not: a file whose header is \<open>url,lib_text\<close> passes the test.
\<close>

lemma lowercase_columns:
  "map strip (columns (lowercase_table rs)) = [str ''url'', str ''lib_text'']"
  by (simp add: lowercase_table_def strip_lib_text) (simp add: str_def strip_def isspace_def)

lemma lowercase_header_accepted:
  "required_columns ascii_lower (map strip (columns (lowercase_table rs)))"
  by (simp add: lowercase_columns required_columns_def) (simp add: ascii_lower_def str_def)

lemma URL_not_in_lowercase_columns: "str ''URL'' \<notin> set [str ''url'', str ''lib_text'']"
  by (simp add: str_def)

text \<open>
  Claim C9. A file that is loaded, whose header is \<open>url,lib_text\<close> and which holds one
  row: the test of the columns passes, and the read \<open>row['URL']\<close> of the first turn of the
  loop, which is outside the inner \<open>try\<close>, raises \<open>KeyError\<close>. The error of the row is not
  made a record and the loop does not go on: the handler of the whole run prints its
  message, and the run ends with no request, no record and no report, although the
  server would have served the page.
\<close>

theorem lowercase_header_halts_the_run:
  "main (run_on (lowercase_table [lowercase_row (Text (str ''http://a'')) (Text (str ''tide''))])
       (serves (str ''diet''))) =
     (None, say (FileError ([39] @ str ''URL'' @ [39]))
        (say (Found 1) (say Loading (say Banner initial)))) \<and>
   requests (snd (main (run_on
       (lowercase_table [lowercase_row (Text (str ''http://a'')) (Text (str ''tide''))])
       (serves (str ''diet''))))) = [] \<and>
   results (snd (main (run_on
       (lowercase_table [lowercase_row (Text (str ''http://a'')) (Text (str ''tide''))])
       (serves (str ''diet''))))) = [] \<and>
   reported (snd (main (run_on
       (lowercase_table [lowercase_row (Text (str ''http://a'')) (Text (str ''tide''))])
       (serves (str ''diet''))))) = []"
proof -
  let ?row = "lowercase_row (Text (str ''http://a'')) (Text (str ''tide''))"
  let ?e = "run_on (lowercase_table [?row]) (serves (str ''diet''))"
  let ?cols = "[str ''url'', str ''lib_text'']"
  let ?st0 = "say (Found 1) (say Loading (say Banner initial))"
  have e: "read_csv ?e = Inr (lowercase_table [?row])" "py_lower ?e = ascii_lower"
    by (simp_all add: run_on_def)
  have r: "rows (lowercase_table [?row]) = [?row]" by (simp add: lowercase_table_def)
  have f: "first_loop ?e ?cols [(0, ?row)] ?st0 = (Some ([39] @ str ''URL'' @ [39]), ?st0)"
    using URL_not_in_lowercase_columns by (simp add: first_loop_row_def row_get_def)
  have m: "main ?e = (None, say (FileError ([39] @ str ''URL'' @ [39])) ?st0)"
    using lowercase_header_accepted [of "[?row]"] f
    by (simp add: main_def Let_def e r lowercase_columns)
  show ?thesis by (simp add: m) (simp add: initial_def)
qed

lemma strip_tide: "strip (str ''tide'') = str ''tide''"
  by (simp add: str_def strip_def isspace_def)

text \<open>
  Claim C2. One batch run over a table of one row that is not skipped, with a server
  that serves the page and reports that are written without an error: the reports
  receive one record, but two requests are issued for the URL of the row, one by each
  of the two loops of \<open>main\<close>, and the second loop appends a second record to \<open>results\<close>
  after the reports.
\<close>

theorem one_row_fetched_twice:
  "requests (snd (main (run_of (serves (str ''diet''))
      [table_row (Text (str ''http://a'')) (Text (str ''tide''))])))
     = [str ''http://a'', str ''http://a''] \<and>
   map length (reported (snd (main (run_of (serves (str ''diet''))
      [table_row (Text (str ''http://a'')) (Text (str ''tide''))])))) = [1] \<and>
   length (results (snd (main (run_of (serves (str ''diet''))
      [table_row (Text (str ''http://a'')) (Text (str ''tide''))])))) = 2 \<and>
   fst (main (run_of (serves (str ''diet''))
      [table_row (Text (str ''http://a'')) (Text (str ''tide''))])) = None"
proof -
  let ?row = "table_row (Text (str ''http://a'')) (Text (str ''tide''))"
  let ?e = "run_of (serves (str ''diet'')) [?row]"
  let ?cols = "[str ''URL'', str ''lib_text'']"
  have req: "required_columns ascii_lower ?cols" by (simp add: exact_columns_required)
  have ne: "str ''tide'' \<noteq> []" by (simp add: str_def)
  have first: "first_loop_row ?e ?cols (0, ?row) st =
      (None, st\<lparr>requests := requests st @ [str ''http://a''],
                 compared := compared st @ [(str ''diet'', str ''tide'')],
                 results := results st @ [SuccessRecord (str ''http://a'')
                   (compare_texts ascii_lower remdups (str ''diet'') (str ''tide''))]\<rparr>)" for st
    using ne diet_not_error
    by (simp add: first_loop_row_def row_get_def Let_def strip_url_a strip_tide
        extract_text_from_url_eq extract_body_eq run_of_def serves_def page_diet)
  have second: "\<exists>r. second_loop_row ?e ?cols 1 (0, ?row) st =
      (None, say (SimilarityIs (similarity (compare_texts ascii_lower remdups (str ''diet'') (str ''tide''))))
        (st\<lparr>requests := requests st @ [str ''http://a''],
            console := console st @ [Processing 1 1 (str ''http://a'')],
            compared := compared st @ [(str ''diet'', str ''tide'')],
            results := results st @ [r]\<rparr>))" for st
    using ne diet_not_error
    by (simp add: second_loop_row_def row_get_def Let_def strip_url_a strip_tide
        extract_text_from_url_eq extract_body_eq run_of_def serves_def page_diet say_def)
      (rule exI, rule refl)
  define st1 where "st1 = snd (first_loop_row ?e ?cols (0, ?row)
    (say (Found 1) (say Loading (say Banner initial))))"
  have f1: "first_loop ?e ?cols [(0, ?row)] (say (Found 1) (say Loading (say Banner initial)))
      = (None, st1)"
    by (simp add: st1_def first)
  have st1: "requests st1 = [str ''http://a'']" "length (results st1) = 1" "reported st1 = []"
    "results st1 \<noteq> []"
    by (simp_all add: st1_def first initial_def)
  define st2 where "st2 = say ReportsSaved (st1\<lparr>reported := reported st1 @ [results st1]\<rparr>)"
  have rep: "reports ?e st1 = (None, st2)"
    using st1(4) by (simp add: reports_def Let_def run_of_def no_report_error_def st2_def)
  obtain r where r: "second_loop_row ?e ?cols 1 (0, ?row) (say (Found 1) st2) =
      (None, say (SimilarityIs (similarity (compare_texts ascii_lower remdups (str ''diet'') (str ''tide''))))
        ((say (Found 1) st2)\<lparr>requests := requests (say (Found 1) st2) @ [str ''http://a''],
            console := console (say (Found 1) st2) @ [Processing 1 1 (str ''http://a'')],
            compared := compared (say (Found 1) st2) @ [(str ''diet'', str ''tide'')],
            results := results (say (Found 1) st2) @ [r]\<rparr>))"
    using second [of "say (Found 1) st2"] by blast
  have m: "main ?e = second_loop ?e ?cols 1 [(0, ?row)] (say (Found 1) st2)"
    using req f1 rep
    by (simp add: main_def Let_def run_of_def table_def strip_URL strip_lib_text)
  show ?thesis
    unfolding m second_loop.simps r using st1 by (simp add: st2_def)
qed



section \<open>Properties of the comparator\<close>



lemma round_half_even_int: "round_half_even (of_int n) = n"
  by (simp add: round_half_even_def)


lemma fl_pos_scaled:
  "4503599627370496 \<le> x * 2 ^ k \<Longrightarrow> x * 2 ^ k < 9007199254740992 \<Longrightarrow>
   fl_pos x = of_int (round_half_even (x * 2 ^ k)) / 2 ^ k"
proof (induction k arbitrary: x)
  case 0
  then show ?case by (subst fl_pos.simps) simp
next
  case (Suc k)
  have p: "(1::rat) \<le> 2 ^ k" by simp
  have pos: "0 < x"
  proof (rule ccontr)
    assume "\<not> 0 < x"
    then have "x * 2 ^ Suc k \<le> 0" by (simp add: mult_le_0_iff)
    then show False using Suc.prems(1) by simp
  qed
  have "x * 2 * 1 \<le> x * 2 * 2 ^ k" using pos p by (intro mult_left_mono) simp_all
  then have "x * 2 < 9007199254740992" using Suc.prems(2) by (simp add: mult.assoc)
  then have x: "x < 4503599627370496" by simp
  have "fl_pos (2 * x) = of_int (round_half_even (2 * x * 2 ^ k)) / 2 ^ k"
    using Suc.prems by (intro Suc.IH) (simp_all add: mult.assoc mult.left_commute)
  then show ?case using x pos
    by (subst fl_pos.simps) (simp add: mult.assoc mult.left_commute)
qed

lemma fl_zero: "fl 0 = 0"
  unfolding fl_def by (subst fl_pos.simps) simp


lemma fl_quarter: "fl (1 / 4) = 1 / 4"
  using fl_pos_scaled [of "1 / 4" 54] by (simp add: fl_def round_half_even_def)

lemma fl_half: "fl (1 / 2) = 1 / 2"
  using fl_pos_scaled [of "1 / 2" 53] by (simp add: fl_def round_half_even_def)

lemma fl_25: "fl 25 = 25"
  using fl_pos_scaled [of 25 48] by (simp add: fl_def round_half_even_def)

lemma fl_50: "fl 50 = 50"
  using fl_pos_scaled [of 50 47] by (simp add: fl_def round_half_even_def)

lemma fl_100: "fl 100 = 100"
  using fl_pos_scaled [of 100 46] by (simp add: fl_def round_half_even_def)

lemmas fl_values = fl_quarter fl_half fl_25 fl_50 fl_100

lemma round2_values: "round2 0 = 0" "round2 25 = 25" "round2 50 = 50" "round2 100 = 100"
  by (simp_all add: round2_def round_half_even_def fl_zero fl_values)


lemma sum_insort_key:
  "sum_list (map f (insort_key g x xs)) = (f x :: nat) + sum_list (map f xs)"
  by (induction xs) auto

lemma sum_sort_key: "sum_list (map f (sort_key g xs)) = (sum_list (map f xs) :: nat)"
  by (induction xs) (simp_all add: sum_insort_key)

lemma sum_collapse_adjacent:
  "(\<Sum>(i, j, k)\<leftarrow>collapse_adjacent (i1, j1, k1) xs. k) = k1 + (\<Sum>(i, j, k)\<leftarrow>xs. k)"
  by (induction xs arbitrary: i1 j1 k1) auto

text \<open>Sorting and merging the blocks does not change the number of matched elements.\<close>

lemma matches_eq:
  "matches a b = (\<Sum>(i, j, k)\<leftarrow>matching_blocks_in a b 0 (length a) 0 (length b). k)"
  by (simp add: matches_def get_matching_blocks_def sum_collapse_adjacent sum_sort_key)








lemmas matcher_eval =
  find_longest_match_def b2j_get_def isbjunk_def bpopular_def indices_of_def upt_rec
  j2len_get_def extend_left.simps extend_right.simps

lemma str_tide: "str ''tide'' = [116, 105, 100, 101]"
  by (simp add: str_def)

lemma str_diet: "str ''diet'' = [100, 105, 101, 116]"
  by (simp add: str_def)

lemma normalize_tide: "normalize_text ascii_lower [116, 105, 100, 101] = [116, 105, 100, 101]"
  by (simp add: normalize_text_def strip_def ascii_lower_def isspace_def)

lemma normalize_diet: "normalize_text ascii_lower [100, 105, 101, 116] = [100, 105, 101, 116]"
  by (simp add: normalize_text_def strip_def ascii_lower_def isspace_def)

lemma length_tide: "length [116, 105, 100, 101 :: nat] = 4"
  by simp

lemma length_diet: "length [100, 105, 101, 116 :: nat] = 4"
  by simp



lemma longest_diet_tide:
  "find_longest_match [100, 105, 101, 116] [116, 105, 100, 101] 0 4 0 4 = (0, 2, 1)"
  by (simp add: matcher_eval)

lemma longest_diet_tide_right:
  "find_longest_match [100, 105, 101, 116] [116, 105, 100, 101] (Suc 0) 4 3 4 = (2, 3, 1)"
  by (simp add: matcher_eval)

lemma blocks_diet_tide_right:
  "matching_blocks_in [100, 105, 101, 116] [116, 105, 100, 101] (Suc 0) 4 3 4 = [(2, 3, 1)]"
  by (subst matching_blocks_in.simps) (simp add: longest_diet_tide_right)

lemma blocks_diet_tide:
  "matching_blocks_in [100, 105, 101, 116] [116, 105, 100, 101] 0 4 0 4 = [(0, 2, 1), (2, 3, 1)]"
  by (subst matching_blocks_in.simps) (simp add: longest_diet_tide blocks_diet_tide_right)


lemma matches_diet_tide: "matches [100, 105, 101, 116] [116, 105, 100, 101] = 2"
  by (simp only: matches_eq length_tide length_diet blocks_diet_tide) simp


lemma similarity_diet_tide:
  "similarity (compare_texts ascii_lower ls (str ''diet'') (str ''tide'')) = 50"
  by (simp add: compare_texts_def str_tide str_diet normalize_tide normalize_diet ratio_def
      matches_diet_tide calculate_ratio_def fl_values round2_values)















lemma set_take_subset_listing:
  "set_listing ls xs \<Longrightarrow> set (take n (ls xs)) \<subseteq> set xs"
  using set_take_subset [of n "ls xs"] by (simp add: set_listing_def)


lemma set_listing_remdups: "set_listing remdups xs"
  by (simp add: set_listing_def)

lemmas text_eval =
  stripped_lines_def strip_def isspace_def normalize_text_def ascii_lower_def


lemma extra_a_b: "extra ascii_lower [97, 10, 98] [97] = []"
  by (simp add: extra_def text_eval)


text \<open>
  Claim C6. The two counts are the lengths of the classification lists before
  deduplication, so a line that occurs several times is counted at each occurrence; the
  example lists are the first 3 elements, at most, of the deduplicated lists, so they
  have no repetition and hold only classified lines.
\<close>

theorem counts_full_examples_deduplicated:
  assumes "set_listing ls (missing lower original lib)" and "set_listing ls (extra lower original lib)"
  shows "missing_lines_count (compare_texts lower ls original lib) = length (missing lower original lib) \<and>
    extra_lines_count (compare_texts lower ls original lib) = length (extra lower original lib) \<and>
    missing_lines_count (compare_texts lower ls original lib)
      = sum (count_list (missing lower original lib)) (set (missing lower original lib)) \<and>
    extra_lines_count (compare_texts lower ls original lib)
      = sum (count_list (extra lower original lib)) (set (extra lower original lib)) \<and>
    length (example_missing (compare_texts lower ls original lib))
      = min 3 (card (set (missing lower original lib))) \<and>
    length (example_extra (compare_texts lower ls original lib))
      = min 3 (card (set (extra lower original lib))) \<and>
    length (example_missing (compare_texts lower ls original lib)) \<le> 3 \<and>
    length (example_extra (compare_texts lower ls original lib)) \<le> 3 \<and>
    distinct (example_missing (compare_texts lower ls original lib)) \<and>
    distinct (example_extra (compare_texts lower ls original lib)) \<and>
    set (example_missing (compare_texts lower ls original lib)) \<subseteq> set (missing lower original lib) \<and>
    set (example_extra (compare_texts lower ls original lib)) \<subseteq> set (extra lower original lib)"
proof -
  have len: "length (ls xs) = card (set xs)" if "set_listing ls xs" for xs
    using that distinct_card [of "ls xs"] by (simp add: set_listing_def)
  have cnt: "length xs = sum (count_list xs) (set xs)" for xs :: "pystr list"
    using sum_count_set [of xs "set xs"] by simp
  show ?thesis
    using assms len [OF assms(1)] len [OF assms(2)]
      set_take_subset_listing [OF assms(1), of 3] set_take_subset_listing [OF assms(2), of 3]
      cnt [of "missing lower original lib"] cnt [of "extra lower original lib"]
    by (simp add: compare_texts_def set_listing_def min.commute)
qed

lemma missing_x_x: "missing ascii_lower [120, 10, 120] [121] = [[120], [120]]"
  by (simp add: missing_def text_eval)

lemma extra_x_x: "extra ascii_lower [120, 10, 120] [121] = [[121]]"
  by (simp add: extra_def text_eval)

theorem counts_full_examples_deduplicated_witness:
  "set_listing remdups (missing ascii_lower [120, 10, 120] [121]) \<and>
   set_listing remdups (extra ascii_lower [120, 10, 120] [121]) \<and>
   missing_lines_count (compare_texts ascii_lower remdups [120, 10, 120] [121]) = 2 \<and>
   example_missing (compare_texts ascii_lower remdups [120, 10, 120] [121]) = [[120]] \<and>
   length (example_missing (compare_texts ascii_lower remdups [120, 10, 120] [121])) \<le> 3 \<and>
   distinct (example_missing (compare_texts ascii_lower remdups [120, 10, 120] [121]))"
proof -
  have h1: "set_listing remdups (missing ascii_lower [120, 10, 120] [121])"
    and h2: "set_listing remdups (extra ascii_lower [120, 10, 120] [121])"
    by (rule set_listing_remdups)+
  have e: "example_missing (compare_texts ascii_lower remdups [120, 10, 120] [121]) = [[120]]"
    by (simp add: compare_texts_def missing_x_x)
  from counts_full_examples_deduplicated [OF h1 h2]
  have "missing_lines_count (compare_texts ascii_lower remdups [120, 10, 120] [121])
          = length (missing ascii_lower [120, 10, 120] [121]) \<and>
        length (example_missing (compare_texts ascii_lower remdups [120, 10, 120] [121])) \<le> 3 \<and>
        distinct (example_missing (compare_texts ascii_lower remdups [120, 10, 120] [121]))"
    by blast
  then show ?thesis using h1 h2 e by (simp add: missing_x_x)
qed



section \<open>Properties of the classifier\<close>

text \<open>
  Claim C7. The banding of \<open>generate_ai_analysis\<close> at the boundary: a similarity of
  exactly 50, which \<open>compare_texts\<close> returns for "diet" and "tide", gets the low verdict
  ("less than 50%"), not the moderate one ("50-80%"); only above 50 is the verdict
  moderate.
\<close>

theorem verdict_at_fifty_is_low:
  "similarity (compare_texts ascii_lower remdups (str ''diet'') (str ''tide'')) = 50 \<and>
   hd (generate_ai_analysis (compare_texts ascii_lower remdups (str ''diet'') (str ''tide''))) = LowSimilarity \<and>
   similarity_verdict 50 = LowSimilarity \<and>
   similarity_verdict (5001 / 100) = ModerateSimilarity"
  by (simp add: generate_ai_analysis_def Let_def similarity_diet_tide similarity_verdict_def)

end
